theory Spec2Isabelle
  imports
    Main
    "HOL-Library.Word"
    "HOL-Library.Char_ord"
    "HOL-Library.List_Lexorder"
    "HOL-Library.Sublist"
begin

section \<open>Runtime values: buffers and strings\<close>

text \<open>
  The analysed file is a Node \<^verbatim>\<open>Buffer\<close>: a sequence of bytes. Offsets and lengths read
  from it are JavaScript numbers holding 32-bit signed integers; their sums stay far
  inside the exact range of a double, so they are modelled as \<^typ>\<open>int\<close>.
  JavaScript strings are modelled as \<^typ>\<open>string\<close>: every string of the analysis is
  decoded from the buffer with the \<^verbatim>\<open>'ascii'\<close> encoding, so its code units are below 128.
\<close>

type_synonym byte = "8 word"
type_synonym buffer = "byte list"

datatype error =
    HeaderTooSmall   \<comment> \<open>\<^verbatim>\<open>throw new Error(...)\<close> of line 1075: file too small for the header\<close>
  | RangeError       \<comment> \<open>\<^verbatim>\<open>ERR_OUT_OF_RANGE\<close> thrown by \<^verbatim>\<open>readInt32LE\<close>\<close>
  | StringTooLong    \<comment> \<open>\<^verbatim>\<open>ERR_STRING_TOO_LONG\<close> thrown by \<^verbatim>\<open>toString\<close>\<close>

text \<open>\<^verbatim>\<open>buf[i]\<close>: \<^verbatim>\<open>undefined\<close> (here \<open>None\<close>) outside the buffer, also at a negative index.\<close>

definition buf_at :: "buffer \<Rightarrow> int \<Rightarrow> byte option" where
  "buf_at buf i = (if 0 \<le> i \<and> i < int (length buf) then Some (buf ! nat i) else None)"

text \<open>
  \<^verbatim>\<open>buf.readInt32LE(offset)\<close>: Node checks that the first and the last of the four bytes
  exist and throws a range error otherwise; the value is
  \<^verbatim>\<open>first + b1 * 2**8 + b2 * 2**16 + (last << 24)\<close>, where the shift yields a signed
  32-bit number.
\<close>

definition readInt32LE :: "buffer \<Rightarrow> int \<Rightarrow> error + int" where
  "readInt32LE buf off =
     (case (buf_at buf off, buf_at buf (off + 3)) of
        (Some first, Some lst) \<Rightarrow>
          Inr (uint first + uint (buf ! nat (off + 1)) * 2 ^ 8
               + uint (buf ! nat (off + 2)) * 2 ^ 16 + sint lst * 2 ^ 24)
      | _ \<Rightarrow> Inl RangeError)"

text \<open>Decoding one byte with the \<^verbatim>\<open>'ascii'\<close> encoding drops its highest bit.\<close>

definition ascii_char :: "byte \<Rightarrow> char" where
  "ascii_char b = char_of (unat b mod 128)"

text \<open>
  \<^verbatim>\<open>buf.toString('ascii', start, end)\<close>: Node clamps the range instead of throwing:
  a start at or below 0 is 0, a start at or beyond the length gives the empty string, an
  end beyond the length is the length, and an end at or before the start gives the empty
  string.
\<close>

definition buf_toString :: "buffer \<Rightarrow> int \<Rightarrow> int \<Rightarrow> string" where
  "buf_toString buf start fin =
     (let len = int (length buf) in
      if 0 < start \<and> len \<le> start then []
      else
        let s = (if start \<le> 0 then 0 else start);
            e = (if len < fin then len else fin)
        in if e \<le> s then [] else map ascii_char (take (nat (e - s)) (drop (nat s) buf)))"

text \<open>
  Node builds no string longer than \<^verbatim>\<open>buffer.constants.MAX_STRING_LENGTH\<close>, which is
  \<open>0x1fffffe8\<close> on a 64-bit platform: \<^verbatim>\<open>toString\<close> throws when the clamped range holds
  more bytes. \<open>toString_range\<close> is the number of bytes of the clamped range,
  \<open>toString_ascii\<close> is the call with its throw, and \<open>buf_toString\<close> above is the string
  the call yields when it does not throw.
\<close>

definition MAX_STRING_LENGTH :: int where
  "MAX_STRING_LENGTH = 0x1fffffe8"

definition toString_range :: "buffer \<Rightarrow> int \<Rightarrow> int \<Rightarrow> int" where
  "toString_range buf start fin =
     (let len = int (length buf) in
      if 0 < start \<and> len \<le> start then 0
      else
        let s = (if start \<le> 0 then 0 else start);
            e = (if len < fin then len else fin)
        in if e \<le> s then 0 else e - s)"

definition toString_ascii :: "buffer \<Rightarrow> int \<Rightarrow> int \<Rightarrow> error + string" where
  "toString_ascii buf start fin =
     (if MAX_STRING_LENGTH < toString_range buf start fin then Inl StringTooLong
      else Inr (buf_toString buf start fin))"

subsection \<open>String operations of the JavaScript runtime\<close>

text \<open>
  White space as \<^verbatim>\<open>\s\<close> and \<^verbatim>\<open>trim()\<close> see it, among the code units below 256: tab, line
  feed, vertical tab, form feed, carriage return, space and the no-break space.
\<close>

definition is_space :: "char \<Rightarrow> bool" where
  "is_space c \<longleftrightarrow>
     c = CHR 0x09 \<or> c = CHR 0x0A \<or> c = CHR 0x0B \<or> c = CHR 0x0C \<or> c = CHR 0x0D
     \<or> c = CHR 0x20 \<or> c = CHR 0xA0"

definition js_trim :: "string \<Rightarrow> string" where
  "js_trim s = rev (dropWhile is_space (rev (dropWhile is_space s)))"

text \<open>
  \<^verbatim>\<open>toLowerCase()\<close> on one code unit below 256: the ASCII capitals and the Latin-1
  capitals (all of \<open>0xC0..0xDE\<close> but the multiplication sign) move up by 32.
\<close>

definition lower_char :: "char \<Rightarrow> char" where
  "lower_char c =
     (if (CHR ''A'' \<le> c \<and> c \<le> CHR ''Z'') \<or> (CHR 0xC0 \<le> c \<and> c \<le> CHR 0xDE \<and> c \<noteq> CHR 0xD7)
      then char_of (of_char c + (32::nat)) else c)"

definition js_toLowerCase :: "string \<Rightarrow> string" where
  "js_toLowerCase s = map lower_char s"

text \<open>\<^verbatim>\<open>.replace(/\\/g, '/')\<close>: every backslash becomes a forward slash.\<close>

definition slash_char :: "char \<Rightarrow> char" where
  "slash_char c = (if c = CHR 0x5C then CHR ''/'' else c)"

definition replace_backslashes :: "string \<Rightarrow> string" where
  "replace_backslashes s = map slash_char s"

text \<open>\<^verbatim>\<open>.replace(/\0/g, '')\<close>: every NUL code unit is removed.\<close>

definition remove_nuls :: "string \<Rightarrow> string" where
  "remove_nuls s = filter (\<lambda>c. c \<noteq> CHR 0x00) s"

subsection \<open>\<^verbatim>\<open>readCString\<close>\<close>

text \<open>
  The loop \<^verbatim>\<open>for (; i < end; i++) if (buf[i] === 0) break;\<close>: the index at which it
  stops. A byte outside the buffer is \<^verbatim>\<open>undefined\<close>, which is not \<open>0\<close>.
\<close>

function cstring_end :: "buffer \<Rightarrow> int \<Rightarrow> int \<Rightarrow> int" where
  "cstring_end buf i fin =
     (if i < fin then (if buf_at buf i = Some 0 then i else cstring_end buf (i + 1) fin)
      else i)"
  by pat_completeness auto
termination
  by (relation "measure (\<lambda>(buf, i, fin). nat (fin - i))") auto

declare cstring_end.simps [simp del]

text \<open>
  The range that \<^verbatim>\<open>readCString\<close> decodes is never longer than \<open>maxLen\<close>, which is 32 at
  its only call, so its \<^verbatim>\<open>toString\<close> cannot throw (lemma \<open>toString_ascii_cstring\<close>
  below) and is taken as the string it yields.
\<close>

definition readCString :: "buffer \<Rightarrow> int \<Rightarrow> int \<Rightarrow> string" where
  "readCString buf start maxLen =
     (let fin = min (start + maxLen) (int (length buf));
          i = cstring_end buf start fin
      in js_trim (remove_nuls (buf_toString buf start i)))"

section \<open>Regular expressions\<close>

text \<open>
  The regular expressions of the source are kept as syntax trees and run by a
  backtracking matcher that follows the ECMAScript semantics: alternatives are tried
  left to right, a quantifier is greedy and gives characters back one at a time. The
  program quantifies character classes only, so \<open>Star\<close> and \<open>Plus\<close> take a class.
  \<open>Lit True s\<close> is the literal \<open>s\<close> under the \<^verbatim>\<open>i\<close> flag.
\<close>

datatype rx =
    Cls "char \<Rightarrow> bool"      \<comment> \<open>one character of a class\<close>
  | Lit bool string         \<comment> \<open>a literal; the flag says whether case is ignored\<close>
  | Star "char \<Rightarrow> bool"     \<comment> \<open>\<^verbatim>\<open>[...]*\<close>\<close>
  | Plus "char \<Rightarrow> bool"     \<comment> \<open>\<^verbatim>\<open>[...]+\<close>\<close>
  | Seq rx rx
  | Alt rx rx
  | Bol                     \<comment> \<open>\<^verbatim>\<open>^\<close>\<close>
  | Eol                     \<comment> \<open>\<^verbatim>\<open>$\<close>\<close>
  | Cap rx                  \<comment> \<open>a capturing group\<close>

text \<open>
  Case folding of the \<^verbatim>\<open>i\<close> flag. ECMAScript compares the upper-case forms; a code unit
  of 128 or more never folds to one below 128, and every literal of the program is ASCII,
  so folding the ASCII letters decides every comparison the program makes.
\<close>

definition canon_char :: "char \<Rightarrow> char" where
  "canon_char c =
     (if CHR ''a'' \<le> c \<and> c \<le> CHR ''z'' then char_of (of_char c - (32::nat)) else c)"

definition lit_matches :: "bool \<Rightarrow> string \<Rightarrow> string \<Rightarrow> bool" where
  "lit_matches ci s t = (if ci then map canon_char s = map canon_char t else s = t)"

text \<open>
  A matcher state is the index reached and the captures made so far. \<open>rx_run r txt st\<close>
  lists all states in which a match of \<open>r\<close> begun in \<open>st\<close> can end, in the order
  in which backtracking tries them.
\<close>

type_synonym rx_state = "nat \<times> string list"

fun rx_run :: "rx \<Rightarrow> string \<Rightarrow> rx_state \<Rightarrow> rx_state list" where
  "rx_run (Cls p) txt (i, cs) =
     (if i < length txt \<and> p (txt ! i) then [(Suc i, cs)] else [])"
| "rx_run (Lit ci s) txt (i, cs) =
     (if lit_matches ci s (take (length s) (drop i txt)) then [(i + length s, cs)] else [])"
| "rx_run (Star p) txt (i, cs) =
     map (\<lambda>n. (i + n, cs)) (rev [0..<Suc (length (takeWhile p (drop i txt)))])"
| "rx_run (Plus p) txt (i, cs) =
     map (\<lambda>n. (i + n, cs)) (rev [1..<Suc (length (takeWhile p (drop i txt)))])"
| "rx_run (Seq a b) txt st = concat (map (rx_run b txt) (rx_run a txt st))"
| "rx_run (Alt a b) txt st = rx_run a txt st @ rx_run b txt st"
| "rx_run Bol txt (i, cs) = (if i = 0 then [(i, cs)] else [])"
| "rx_run Eol txt (i, cs) = (if i = length txt then [(i, cs)] else [])"
| "rx_run (Cap a) txt (i, cs) =
     map (\<lambda>(j, cs'). (j, cs' @ [take (j - i) (drop i txt)])) (rx_run a txt (i, cs))"

text \<open>
  The search of \<^verbatim>\<open>RegExpBuiltinExec\<close>: try the start index, then the next one, until the
  index passes the end of the text. The result is the start of the match, its end and
  its captures (\<^verbatim>\<open>m[1]\<close> is the first capture).
\<close>

function rx_search :: "rx \<Rightarrow> string \<Rightarrow> nat \<Rightarrow> (nat \<times> nat \<times> string list) option" where
  "rx_search r txt i =
     (if length txt < i then None
      else case rx_run r txt (i, []) of
             [] \<Rightarrow> rx_search r txt (Suc i)
           | (e, cs) # _ \<Rightarrow> Some (i, e, cs))"
  by pat_completeness auto
termination
  by (relation "measure (\<lambda>(r, txt, i). Suc (length txt) - i)") auto

declare rx_search.simps [simp del]

text \<open>\<^verbatim>\<open>re.test(s)\<close> for a regular expression without the \<^verbatim>\<open>g\<close> flag.\<close>

definition rx_test :: "rx \<Rightarrow> string \<Rightarrow> bool" where
  "rx_test r s = (rx_search r s 0 \<noteq> None)"

text \<open>\<^verbatim>\<open>s.replace(re, '')\<close> without the \<^verbatim>\<open>g\<close> flag: the first match is cut out.\<close>

definition rx_remove_first :: "rx \<Rightarrow> string \<Rightarrow> string" where
  "rx_remove_first r s =
     (case rx_search r s 0 of None \<Rightarrow> s | Some (i, e, cs) \<Rightarrow> take i s @ drop e s)"


subsection \<open>Bounds of a match\<close>

lemma lit_matches_length: "lit_matches ci s t \<Longrightarrow> length s = length t"
  by (auto simp: lit_matches_def split: if_splits dest: map_eq_imp_length_eq)

lemma rx_run_bounds:
  "(e, cs') \<in> set (rx_run r tx (i, cs)) \<Longrightarrow> i \<le> length tx \<Longrightarrow> i \<le> e \<and> e \<le> length tx"
proof (induction r arbitrary: i cs e cs')
  case (Cls p)
  then show ?case by (auto split: if_splits)
next
  case (Lit ci s)
  then have "length s = length (take (length s) (drop i tx))"
    by (auto split: if_splits dest: lit_matches_length)
  with Lit show ?case by (auto split: if_splits)
next
  case (Star p)
  have "length (takeWhile p (drop i tx)) \<le> length tx - i"
    using length_takeWhile_le [of p "drop i tx"] by simp
  with Star show ?case by auto
next
  case (Plus p)
  have "length (takeWhile p (drop i tx)) \<le> length tx - i"
    using length_takeWhile_le [of p "drop i tx"] by simp
  with Plus show ?case by auto
next
  case (Seq a b)
  from Seq.prems obtain m ms where m: "(m, ms) \<in> set (rx_run a tx (i, cs))"
    and e: "(e, cs') \<in> set (rx_run b tx (m, ms))"
    by auto
  from Seq.IH(1) [OF m Seq.prems(2)] have "i \<le> m" "m \<le> length tx" by simp_all
  moreover from Seq.IH(2) [OF e \<open>m \<le> length tx\<close>] have "m \<le> e" "e \<le> length tx" by simp_all
  ultimately show ?case by simp
next
  case (Alt a b)
  then show ?case by auto
next
  case Bol
  then show ?case by (auto split: if_splits)
next
  case Eol
  then show ?case by (auto split: if_splits)
next
  case (Cap a)
  then show ?case by auto
qed

lemma rx_search_bounds:
  "rx_search r tx li = Some (i, e, cs) \<Longrightarrow> li \<le> i \<and> i \<le> e \<and> e \<le> length tx"
proof (induction r tx li rule: rx_search.induct)
  case (1 r tx k)
  show ?case
  proof (cases "length tx < k")
    case True
    with "1.prems" show ?thesis by (simp add: rx_search.simps)
  next
    case False
    show ?thesis
    proof (cases "rx_run r tx (k, [])")
      case Nil
      with False "1.prems" have "rx_search r tx (Suc k) = Some (i, e, cs)"
        by (simp add: rx_search.simps [of r tx k])
      from "1.IH" [OF False Nil this] show ?thesis by simp
    next
      case (Cons st sts)
      with False "1.prems" have st: "st = (e, cs)" and "i = k"
        by (auto simp: rx_search.simps [of r tx k] split: prod.splits)
      with Cons have "(e, cs) \<in> set (rx_run r tx (k, []))" by simp
      from rx_run_bounds [OF this] False \<open>i = k\<close> show ?thesis by simp
    qed
  qed
qed

lemma rx_search_first:
  "rx_search r tx li = Some (i, e, cs) \<Longrightarrow> (e, cs) \<in> set (rx_run r tx (i, []))"
proof (induction r tx li rule: rx_search.induct)
  case (1 r tx k)
  show ?case
  proof (cases "rx_run r tx (k, [])")
    case Nil
    with "1.prems" have nl: "\<not> length tx < k" and "rx_search r tx (Suc k) = Some (i, e, cs)"
      by (auto simp: rx_search.simps [of r tx k] split: if_splits)
    from "1.IH" [OF nl Nil this(2)] show ?thesis .
  next
    case (Cons st sts)
    with "1.prems" have "st = (e, cs)" and "i = k"
      by (auto simp: rx_search.simps [of r tx k] split: if_splits prod.splits)
    with Cons show ?thesis by simp
  qed
qed

section \<open>The regular expressions of the program\<close>

definition is_quote :: "char \<Rightarrow> bool" where
  "is_quote c \<longleftrightarrow> c = CHR 0x22"

definition not_quote :: "char \<Rightarrow> bool" where
  "not_quote c \<longleftrightarrow> c \<noteq> CHR 0x22"

definition is_sep :: "char \<Rightarrow> bool" where
  "is_sep c \<longleftrightarrow> c = CHR 0x5C \<or> c = CHR ''/''"

text \<open>\<^verbatim>\<open>/"([^"]+)"\s*"([^"]*)"/g\<close> (line 1162)\<close>

definition re_pairs :: rx where
  "re_pairs =
     Seq (Cls is_quote) (Seq (Cap (Plus not_quote)) (Seq (Cls is_quote)
       (Seq (Star is_space)
         (Seq (Cls is_quote) (Seq (Cap (Star not_quote)) (Cls is_quote))))))"

text \<open>\<^verbatim>\<open>/^textures[\\/]+/i\<close> (line 1126)\<close>

definition re_textures_prefix :: rx where
  "re_textures_prefix = Seq Bol (Seq (Lit True ''textures'') (Plus is_sep))"

text \<open>\<^verbatim>\<open>/^sound/\<close> (line 1195)\<close>

definition re_sound_key :: rx where
  "re_sound_key = Seq Bol (Lit False ''sound'')"

text \<open>\<^verbatim>\<open>/^sound\//i\<close> and \<^verbatim>\<open>/\.(wav|ogg|mp3)$/i\<close> (line 1196)\<close>

definition re_sound_dir :: rx where
  "re_sound_dir = Seq Bol (Lit True ''sound/'')"

definition re_sound_ext :: rx where
  "re_sound_ext =
     Seq (Lit True ''.'')
       (Seq (Cap (Alt (Lit True ''wav'') (Alt (Lit True ''ogg'') (Lit True ''mp3'')))) Eol)"

text \<open>\<^verbatim>\<open>/^models\//i\<close> and \<^verbatim>\<open>/\.(md2|sp2|iqm|md3)$/i\<close> (line 1199)\<close>

definition re_models_dir :: rx where
  "re_models_dir = Seq Bol (Lit True ''models/'')"

definition re_model_ext :: rx where
  "re_model_ext =
     Seq (Lit True ''.'')
       (Seq (Cap (Alt (Lit True ''md2'') (Alt (Lit True ''sp2'')
                   (Alt (Lit True ''iqm'') (Lit True ''md3''))))) Eol)"

text \<open>
  \<^verbatim>\<open>/^path|file|script|shader$/i\<close> (line 1205). Alternation binds weaker than the
  anchors: the four alternatives are \<^verbatim>\<open>^path\<close>, \<^verbatim>\<open>file\<close>, \<^verbatim>\<open>script\<close> and \<^verbatim>\<open>shader$\<close>.
\<close>

definition re_other_key :: rx where
  "re_other_key =
     Alt (Seq Bol (Lit True ''path''))
       (Alt (Lit True ''file'') (Alt (Lit True ''script'') (Seq (Lit True ''shader'') Eol)))"

lemma rx_run_Seq_Cls_bounds:
  assumes "(e, cs') \<in> set (rx_run (Seq (Cls p) r) tx (i, cs))"
  shows "i < e \<and> e \<le> length tx"
proof -
  from assms have il: "i < length tx" and "(e, cs') \<in> set (rx_run r tx (Suc i, cs))"
    by (auto split: if_splits)
  from rx_run_bounds [OF this(2)] il show ?thesis by simp
qed

lemma re_pairs_advances:
  assumes "rx_search re_pairs tx li = Some (i, e, cs)"
  shows "li < e \<and> e \<le> length tx"
proof -
  from rx_search_bounds [OF assms] have b: "li \<le> i" by simp
  from rx_search_first [OF assms] have "(e, cs) \<in> set (rx_run re_pairs tx (i, []))" .
  then have "i < e \<and> e \<le> length tx"
    unfolding re_pairs_def by (rule rx_run_Seq_Cls_bounds)
  with b show ?thesis by simp
qed


section \<open>Data model\<close>

text \<open>
  The diagnostics of the analysis. The source builds them as (Russian) message strings;
  each constructor stands for one message template and carries the values interpolated
  into it.
\<close>

datatype diag =
    BadSignature string string  \<comment> \<open>line 1081: wrong signature, expected \<^verbatim>\<open>"${Q2_MAGIC}"\<close>, received \<^verbatim>\<open>"${magic}"\<close>\<close>
  | VersionMismatch int int     \<comment> \<open>line 1084: BSP version \<^verbatim>\<open>${version}\<close>, expected \<^verbatim>\<open>${Q2_VERSION}\<close>; trying to go on\<close>
  | LumpTableTruncated          \<comment> \<open>line 1092: unexpected end of file in the lump table\<close>
  | EntitiesLumpMissing         \<comment> \<open>line 1115: ENTITIES lump missing or corrupt\<close>
  | TexinfoLumpMissing          \<comment> \<open>line 1131: TEXINFO lump missing or corrupt, textures may not be found\<close>

record Lump =
  lump_offset :: int
  lump_length :: int

record SpawnPoints =
  deathmatch :: nat
  coop :: nat
  start :: nat
  intermission :: nat

record EntityStats =
  weapons :: "string \<rightharpoonup> nat"
  armors :: "string \<rightharpoonup> nat"
  spawnPoints :: SpawnPoints
  items :: "string \<rightharpoonup> nat"

record WorldInfo =
  name :: "string option"
  version :: "string option"

text \<open>
  The object handed to \<^verbatim>\<open>extractFromEntities\<close>. A JavaScript \<^verbatim>\<open>Set\<close> of strings is a
  list without duplicates in insertion order.
\<close>

record Out =
  out_skies :: "string list"
  out_sounds :: "string list"
  out_models :: "string list"
  out_others :: "string list"
  out_entityStats :: EntityStats
  out_worldInfo :: WorldInfo

record AnalysisResult =
  errors :: "diag list"
  warnings :: "diag list"
  mapName :: "string option"
  mapVersion :: "string option"
  textures :: "string list"
  skies :: "string list"
  sounds :: "string list"
  models :: "string list"
  others :: "string list"
  entityStats :: EntityStats

definition Q2_MAGIC :: string where
  "Q2_MAGIC = ''IBSP''"

definition Q2_VERSION :: int where
  "Q2_VERSION = 38"

definition LUMP_ENTITIES :: nat where
  "LUMP_ENTITIES = 0"

definition LUMP_TEXINFO :: nat where
  "LUMP_TEXINFO = 5"

definition DTEXINFO_SIZE :: int where
  "DTEXINFO_SIZE = 76"

definition createEmptyEntityStats :: EntityStats where
  "createEmptyEntityStats =
     \<lparr>weapons = Map.empty, armors = Map.empty,
      spawnPoints = \<lparr>deathmatch = 0, coop = 0, start = 0, intermission = 0\<rparr>,
      items = Map.empty\<rparr>"

text \<open>\<^verbatim>\<open>set.add(x)\<close>\<close>

definition Set_add :: "string \<Rightarrow> string list \<Rightarrow> string list" where
  "Set_add x xs = (if x \<in> set xs then xs else xs @ [x])"

text \<open>\<^verbatim>\<open>map[key] = (map[key] || 0) + 1\<close>\<close>

definition inc_key :: "(string \<rightharpoonup> nat) \<Rightarrow> string \<Rightarrow> (string \<rightharpoonup> nat)" where
  "inc_key m key = m(key \<mapsto> (case m key of None \<Rightarrow> 0 | Some n \<Rightarrow> n) + 1)"

section \<open>Classification of class names\<close>

definition interestingItems :: "string list" where
  "interestingItems =
     [''item_health'', ''item_health_large'', ''item_health_mega'', ''item_quad'',
      ''item_invulnerability'', ''item_adrenaline'', ''item_bandolier'', ''item_pack'',
      ''item_power_screen'', ''item_power_shield'']"

definition classifyClassname :: "string \<Rightarrow> EntityStats \<Rightarrow> EntityStats" where
  "classifyClassname cls es =
     (if prefix ''weapon_'' cls then es\<lparr>weapons := inc_key (weapons es) cls\<rparr>
      else if prefix ''item_armor_'' cls then es\<lparr>armors := inc_key (armors es) cls\<rparr>
      else if prefix ''info_player_'' cls then
        (if cls = ''info_player_deathmatch'' then
           es\<lparr>spawnPoints := (spawnPoints es)\<lparr>deathmatch := deathmatch (spawnPoints es) + 1\<rparr>\<rparr>
         else if cls = ''info_player_start'' then
           es\<lparr>spawnPoints := (spawnPoints es)\<lparr>start := start (spawnPoints es) + 1\<rparr>\<rparr>
         else if cls = ''info_player_coop'' then
           es\<lparr>spawnPoints := (spawnPoints es)\<lparr>coop := coop (spawnPoints es) + 1\<rparr>\<rparr>
         else if cls = ''info_player_intermission'' then
           es\<lparr>spawnPoints := (spawnPoints es)\<lparr>intermission := intermission (spawnPoints es) + 1\<rparr>\<rparr>
         else es)
      else if cls \<in> set interestingItems then es\<lparr>items := inc_key (items es) cls\<rparr>
      else es)"

section \<open>The entity text\<close>

text \<open>
  The \<^verbatim>\<open>while ((m = re.exec(txt)) !== null)\<close> loop of \<^verbatim>\<open>extractFromEntities\<close>: each
  match gives the pair of the lower-cased first capture and the second capture, and the
  next search starts where the match ended (\<^verbatim>\<open>lastIndex\<close>).
\<close>

function pairs_loop :: "string \<Rightarrow> nat \<Rightarrow> (string \<times> string) list" where
  "pairs_loop txt lastIndex =
     (case rx_search re_pairs txt lastIndex of
        None \<Rightarrow> []
      | Some (i, e, m) \<Rightarrow> (js_toLowerCase (m ! 0), m ! 1) # pairs_loop txt e)"
  by pat_completeness auto
termination
proof (relation "measure (\<lambda>(tx, li). length tx - li)")
  show "wf (measure (\<lambda>(tx, li). length tx - li))" by simp
next
  fix tx :: string and lastIndex :: nat and x2 :: "nat \<times> nat \<times> string list"
    and i :: nat and y :: "nat \<times> string list" and e :: nat and m :: "string list"
  assume "rx_search re_pairs tx lastIndex = Some x2" "(i, y) = x2" "(e, m) = y"
  then have "rx_search re_pairs tx lastIndex = Some (i, e, m)" by simp
  from re_pairs_advances [OF this] have "lastIndex < e" and "e \<le> length tx" by simp_all
  then show "((tx, e), (tx, lastIndex)) \<in> measure (\<lambda>(tx, li). length tx - li)" by simp
qed

declare pairs_loop.simps [simp del]

text \<open>A value is falsy when it is \<^verbatim>\<open>null\<close> or the empty string.\<close>

definition falsy :: "string option \<Rightarrow> bool" where
  "falsy x \<longleftrightarrow> x = None \<or> x = Some []"

text \<open>
  The body of the loop \<^verbatim>\<open>for (const [k, v] of pairs)\<close> is a sequence of four
  statements, each a function of the object \<^verbatim>\<open>out\<close>.

  Lines 1180 to 1182: the map name, set while it is still falsy.
\<close>

definition note_name :: "string \<Rightarrow> string \<Rightarrow> Out \<Rightarrow> Out" where
  "note_name k v out =
     (if (k = ''message'' \<or> k = ''map'' \<or> k = ''mapname'') \<and> falsy (name (out_worldInfo out))
      then out\<lparr>out_worldInfo := (out_worldInfo out)\<lparr>name := Some v\<rparr>\<rparr>
      else out)"

text \<open>Lines 1183 to 1185: the map version, likewise.\<close>

definition note_version :: "string \<Rightarrow> string \<Rightarrow> Out \<Rightarrow> Out" where
  "note_version k v out =
     (if (k = ''mapversion'' \<or> k = ''version'') \<and> falsy (version (out_worldInfo out))
      then out\<lparr>out_worldInfo := (out_worldInfo out)\<lparr>version := Some v\<rparr>\<rparr>
      else out)"

text \<open>
  Lines 1188 to 1191: the class name counters (\<^verbatim>\<open>out.entityStats\<close> is always there when
  \<^verbatim>\<open>analyzeBspBuffer\<close> calls).
\<close>

definition count_classname :: "string \<Rightarrow> string \<Rightarrow> Out \<Rightarrow> Out" where
  "count_classname k v out =
     (if k = ''classname''
      then out\<lparr>out_entityStats := classifyClassname (js_toLowerCase v) (out_entityStats out)\<rparr>
      else out)"

text \<open>Lines 1193 to 1207: the resource buckets; \<open>vv\<close> is the value with forward slashes.\<close>

definition add_resource :: "string \<Rightarrow> string \<Rightarrow> Out \<Rightarrow> Out" where
  "add_resource k vv out =
     (if k = ''sky'' then out\<lparr>out_skies := Set_add (''env/'' @ vv @ ''*'') (out_skies out)\<rparr>
      else if k = ''sound'' \<or> k = ''noise'' \<or> k = ''snd'' \<or> rx_test re_sound_key k then
        (if rx_test re_sound_dir vv \<or> rx_test re_sound_ext vv
         then out\<lparr>out_sounds := Set_add vv (out_sounds out)\<rparr>
         else out\<lparr>out_others := Set_add (k @ ''='' @ vv) (out_others out)\<rparr>)
      else if k = ''model'' then
        (if rx_test re_models_dir vv \<or> rx_test re_model_ext vv
         then out\<lparr>out_models := Set_add vv (out_models out)\<rparr>
         else out\<lparr>out_others := Set_add (k @ ''='' @ vv) (out_others out)\<rparr>)
      else if k = ''music'' \<or> k = ''cdtrack'' \<or> k = ''wav'' then
        out\<lparr>out_sounds := Set_add vv (out_sounds out)\<rparr>
      else if k = ''wad'' then
        out\<lparr>out_others := Set_add (''wad='' @ vv) (out_others out)\<rparr>
      else if rx_test re_other_key k then
        out\<lparr>out_others := Set_add (k @ ''='' @ vv) (out_others out)\<rparr>
      else out)"

text \<open>One round of the loop; a pair with an empty value is skipped (\<^verbatim>\<open>if (!v) continue\<close>).\<close>

definition process_pair :: "string \<times> string \<Rightarrow> Out \<Rightarrow> Out" where
  "process_pair kv out =
     (case kv of (k, v) \<Rightarrow>
        if v = [] then out
        else add_resource k (replace_backslashes v)
               (count_classname k v (note_version k v (note_name k v out))))"

definition extractFromEntities :: "string \<Rightarrow> Out \<Rightarrow> Out" where
  "extractFromEntities txt out = fold process_pair (pairs_loop txt 0) out"


section \<open>\<^verbatim>\<open>analyzeBspBuffer\<close>\<close>

text \<open>
  The lump table loop \<^verbatim>\<open>for (let i = 0; i < 19; i++)\<close>; the second argument counts the
  rounds that remain. A truncated table records an error and leaves the loop.
\<close>

fun lumps_loop ::
  "buffer \<Rightarrow> nat \<Rightarrow> int \<Rightarrow> diag list \<Rightarrow> Lump list \<Rightarrow> error + (diag list \<times> Lump list)" where
  "lumps_loop buf 0 off errs lumps = Inr (errs, lumps)"
| "lumps_loop buf (Suc n) off errs lumps =
     (if off + 8 > int (length buf) then Inr (errs @ [LumpTableTruncated], lumps)
      else
        case readInt32LE buf off of
          Inl e \<Rightarrow> Inl e
        | Inr lo \<Rightarrow>
            (case readInt32LE buf (off + 4) of
               Inl e \<Rightarrow> Inl e
             | Inr ll \<Rightarrow>
                 lumps_loop buf n (off + 8) errs
                   (lumps @ [\<lparr>lump_offset = lo, lump_length = ll\<rparr>])))"

text \<open>\<^verbatim>\<open>lumps[i]\<close>: \<^verbatim>\<open>undefined\<close> when the table has no such entry.\<close>

definition lumps_at :: "Lump list \<Rightarrow> nat \<Rightarrow> Lump option" where
  "lumps_at lumps i = (if i < length lumps then Some (lumps ! i) else None)"

text \<open>
  The guard of both lump consumers:
  \<^verbatim>\<open>l && l.length > 0 && l.offset + l.length <= buf.length\<close>.
\<close>

definition lump_guard :: "buffer \<Rightarrow> Lump option \<Rightarrow> bool" where
  "lump_guard buf l =
     (case l of
        None \<Rightarrow> False
      | Some x \<Rightarrow> lump_length x > 0 \<and> lump_offset x + lump_length x \<le> int (length buf))"

text \<open>
  The ENTITIES block (lines 1110 to 1116). The text of the lump can be as long as the
  buffer, so this is the call of \<^verbatim>\<open>toString\<close> that can throw.
\<close>

definition entities_block ::
  "buffer \<Rightarrow> Lump list \<Rightarrow> Out \<Rightarrow> diag list \<Rightarrow> error + (Out \<times> diag list)" where
  "entities_block buf lumps out warns =
     (let ent = lumps_at lumps LUMP_ENTITIES in
      if lump_guard buf ent then
        (case ent of
           Some l \<Rightarrow>
             (case toString_ascii buf (lump_offset l) (lump_offset l + lump_length l) of
                Inl e \<Rightarrow> Inl e
              | Inr entsTxt \<Rightarrow> Inr (extractFromEntities entsTxt out, warns))
         | None \<Rightarrow> Inr (out, warns))
      else Inr (out, warns @ [EntitiesLumpMissing]))"

text \<open>The name of a texture as the TEXINFO block stores it (lines 1126 and 1127).\<close>

definition normalized :: "string \<Rightarrow> string" where
  "normalized nm = replace_backslashes (rx_remove_first re_textures_prefix nm)"

definition texture_path :: "string \<Rightarrow> string" where
  "texture_path nm = ''textures/'' @ normalized nm @ ''.wal''"

text \<open>One round of the loop over the TEXINFO records (lines 1123 to 1128).\<close>

definition texinfo_round :: "buffer \<Rightarrow> Lump \<Rightarrow> nat \<Rightarrow> string list \<Rightarrow> string list" where
  "texinfo_round buf tix i texs =
     (let base = lump_offset tix + int i * DTEXINFO_SIZE;
          nm = readCString buf (base + 32 + 4 + 4) 32
      in if nm \<noteq> [] then Set_add (texture_path nm) texs else texs)"

text \<open>The TEXINFO block (lines 1119 to 1132).\<close>

definition texinfo_block :: "buffer \<Rightarrow> Lump list \<Rightarrow> diag list \<Rightarrow> string list \<times> diag list" where
  "texinfo_block buf lumps warns =
     (let tix = lumps_at lumps LUMP_TEXINFO in
      if lump_guard buf tix then
        (case tix of
           Some l \<Rightarrow>
             (fold (texinfo_round buf l) [0..<nat (lump_length l div DTEXINFO_SIZE)] [], warns)
         | None \<Rightarrow> ([], warns))
      else ([], warns @ [TexinfoLumpMissing]))"

definition empty_out :: Out where
  "empty_out =
     \<lparr>out_skies = [], out_sounds = [], out_models = [], out_others = [],
      out_entityStats = createEmptyEntityStats,
      out_worldInfo = \<lparr>name = None, version = None\<rparr>\<rparr>"

text \<open>\<^verbatim>\<open>x || null\<close>\<close>

definition or_null :: "string option \<Rightarrow> string option" where
  "or_null x = (if falsy x then None else x)"

text \<open>
  The signature is a range of four bytes: its \<^verbatim>\<open>toString\<close> cannot throw (lemma
  \<open>toString_ascii_magic\<close> below) and is taken as the string it yields.
\<close>

definition analyzeBspBuffer :: "buffer \<Rightarrow> error + AnalysisResult" where
  "analyzeBspBuffer buf =
     (if length buf < 8 then Inl HeaderTooSmall
      else
        let magic = buf_toString buf 0 4 in
        case readInt32LE buf 4 of
          Inl e \<Rightarrow> Inl e
        | Inr ver \<Rightarrow>
            let errs0 = (if magic \<noteq> Q2_MAGIC then [BadSignature Q2_MAGIC magic] else []);
                warns0 = (if ver \<noteq> Q2_VERSION then [VersionMismatch ver Q2_VERSION] else [])
            in
              (case lumps_loop buf 19 8 errs0 [] of
                 Inl e \<Rightarrow> Inl e
               | Inr (errs1, lumps) \<Rightarrow>
                   (case entities_block buf lumps empty_out warns0 of
                      Inl e \<Rightarrow> Inl e
                    | Inr (out1, warns1) \<Rightarrow>
                        let (texs, warns2) = texinfo_block buf lumps warns1
                        in Inr \<lparr>errors = errs1,
                                warnings = warns2,
                                mapName = or_null (name (out_worldInfo out1)),
                                mapVersion = or_null (version (out_worldInfo out1)),
                                textures = sort texs,
                                skies = sort (out_skies out1),
                                sounds = sort (out_sounds out1),
                                models = sort (out_models out1),
                                others = sort (out_others out1),
                                entityStats = out_entityStats out1\<rparr>)))"

section \<open>The texture rule as the specification words it\<close>

text \<open>
  A second normalizer, written from the words of the specification and not from the
  source, to be compared with \<open>texture_path\<close>: one leading \<^verbatim>\<open>textures/\<close> or
  \<^verbatim>\<open>textures\\<close> is stripped without regard to case, every backslash becomes a forward
  slash, and the result is put between \<^verbatim>\<open>textures/\<close> and \<^verbatim>\<open>.wal\<close>.
\<close>

definition spec_texture_path :: "string \<Rightarrow> string" where
  "spec_texture_path nm =
     ''textures/''
     @ replace_backslashes
         (if map canon_char (take 9 nm) = map canon_char ''textures/''
             \<or> map canon_char (take 9 nm) = map canon_char (''textures'' @ [CHR 0x5C])
          then drop 9 nm else nm)
     @ ''.wal''"

section \<open>Sample inputs\<close>

text \<open>Entity texts.\<close>

definition shotgun_text :: string where
  "shotgun_text =
     ''{'' @ [CHR 0x0A, CHR 0x22] @ ''classname'' @ [CHR 0x22] @ '' '' @
     [CHR 0x22] @ ''weapon_shotgun'' @ [CHR 0x22, CHR 0x0A] @ ''}'' @ [CHR 0x0A] @
     ''{'' @ [CHR 0x0A, CHR 0x22] @ ''classname'' @ [CHR 0x22] @ '' '' @
     [CHR 0x22] @ ''weapon_shotgun'' @ [CHR 0x22, CHR 0x0A] @ ''}'' @ [CHR 0x0A] @
     ''{'' @ [CHR 0x0A, CHR 0x22] @ ''classname'' @ [CHR 0x22] @ '' '' @
     [CHR 0x22] @ ''weapon_shotgun'' @ [CHR 0x22, CHR 0x0A] @ ''}'' @ [CHR 0x0A]"

definition spawn_text :: string where
  "spawn_text =
     ''{'' @ [CHR 0x0A, CHR 0x22] @ ''classname'' @ [CHR 0x22] @ '' '' @
     [CHR 0x22] @ ''info_player_deathmatch'' @ [CHR 0x22, CHR 0x0A] @ ''}'' @
     [CHR 0x0A] @ ''{'' @ [CHR 0x0A, CHR 0x22] @ ''classname'' @ [CHR 0x22] @
     '' '' @ [CHR 0x22] @ ''info_player_start'' @ [CHR 0x22, CHR 0x0A] @ ''}'' @
     [CHR 0x0A] @ ''{'' @ [CHR 0x0A, CHR 0x22] @ ''classname'' @ [CHR 0x22] @
     '' '' @ [CHR 0x22] @ ''info_player_deathmatch'' @ [CHR 0x22, CHR 0x0A] @
     ''}'' @ [CHR 0x0A]"

definition fragpit_text :: string where
  "fragpit_text =
     ''{'' @ [CHR 0x0A, CHR 0x22] @ ''classname'' @ [CHR 0x22] @ '' '' @
     [CHR 0x22] @ ''worldspawn'' @ [CHR 0x22, CHR 0x0A, CHR 0x22] @ ''message'' @
     [CHR 0x22] @ '' '' @ [CHR 0x22] @ ''Frag Pit'' @
     [CHR 0x22, CHR 0x0A, CHR 0x22] @ ''mapversion'' @ [CHR 0x22] @ '' '' @
     [CHR 0x22, CHR 0x22, CHR 0x0A, CHR 0x22] @ ''version'' @ [CHR 0x22] @ '' '' @
     [CHR 0x22] @ ''2'' @ [CHR 0x22, CHR 0x0A] @ ''}'' @ [CHR 0x0A] @ ''{'' @
     [CHR 0x0A, CHR 0x22] @ ''classname'' @ [CHR 0x22] @ '' '' @ [CHR 0x22] @
     ''target_help'' @ [CHR 0x22, CHR 0x0A, CHR 0x22] @ ''message'' @ [CHR 0x22] @
     '' '' @ [CHR 0x22] @ ''Other Name'' @ [CHR 0x22, CHR 0x0A, CHR 0x22] @
     ''version'' @ [CHR 0x22] @ '' '' @ [CHR 0x22] @ ''3'' @
     [CHR 0x22, CHR 0x0A] @ ''}'' @ [CHR 0x0A]"


text \<open>
  Buffers. \<open>wall_buf\<close>: a valid header, no ENTITIES lump, and a TEXINFO lump of one
  record named \<^verbatim>\<open>e1u1/wall01\<close>. \<open>mixed_buf\<close>: the signature \<^verbatim>\<open>XXXX\<close>, version 37, an
  entity text and three TEXINFO records named \<^verbatim>\<open>textures//wall\<close>, \<^verbatim>\<open>e1u1/floor\<close> and
  \<^verbatim>\<open>textures//wall\<close>. \<open>neg_buf\<close>: a valid header whose ENTITIES lump is at offset \<open>-1\<close>
  with length 171 and whose TEXINFO lump is at offset \<open>-40\<close> with length 76, followed
  by the ten bytes \<^verbatim>\<open>"sky" "u1"\<close>.
\<close>

definition wall_buf :: buffer where
  "wall_buf =
     [0x49, 0x42, 0x53, 0x50, 0x26, 0x00, 0x00, 0x00, 0x00, 0x00, 0x00, 0x00,
      0x00, 0x00, 0x00, 0x00, 0x00, 0x00, 0x00, 0x00, 0x00, 0x00, 0x00, 0x00,
      0x00, 0x00, 0x00, 0x00, 0x00, 0x00, 0x00, 0x00, 0x00, 0x00, 0x00, 0x00,
      0x00, 0x00, 0x00, 0x00, 0x00, 0x00, 0x00, 0x00, 0x00, 0x00, 0x00, 0x00,
      0xA0, 0x00, 0x00, 0x00, 0x4C, 0x00, 0x00, 0x00, 0x00, 0x00, 0x00, 0x00,
      0x00, 0x00, 0x00, 0x00, 0x00, 0x00, 0x00, 0x00, 0x00, 0x00, 0x00, 0x00,
      0x00, 0x00, 0x00, 0x00, 0x00, 0x00, 0x00, 0x00, 0x00, 0x00, 0x00, 0x00,
      0x00, 0x00, 0x00, 0x00, 0x00, 0x00, 0x00, 0x00, 0x00, 0x00, 0x00, 0x00,
      0x00, 0x00, 0x00, 0x00, 0x00, 0x00, 0x00, 0x00, 0x00, 0x00, 0x00, 0x00,
      0x00, 0x00, 0x00, 0x00, 0x00, 0x00, 0x00, 0x00, 0x00, 0x00, 0x00, 0x00,
      0x00, 0x00, 0x00, 0x00, 0x00, 0x00, 0x00, 0x00, 0x00, 0x00, 0x00, 0x00,
      0x00, 0x00, 0x00, 0x00, 0x00, 0x00, 0x00, 0x00, 0x00, 0x00, 0x00, 0x00,
      0x00, 0x00, 0x00, 0x00, 0x00, 0x00, 0x00, 0x00, 0x00, 0x00, 0x00, 0x00,
      0x00, 0x00, 0x00, 0x00, 0x00, 0x00, 0x00, 0x00, 0x00, 0x00, 0x00, 0x00,
      0x00, 0x00, 0x00, 0x00, 0x00, 0x00, 0x00, 0x00, 0x00, 0x00, 0x00, 0x00,
      0x00, 0x00, 0x00, 0x00, 0x00, 0x00, 0x00, 0x00, 0x00, 0x00, 0x00, 0x00,
      0x00, 0x00, 0x00, 0x00, 0x00, 0x00, 0x00, 0x00, 0x65, 0x31, 0x75, 0x31,
      0x2F, 0x77, 0x61, 0x6C, 0x6C, 0x30, 0x31, 0x00, 0x00, 0x00, 0x00, 0x00,
      0x00, 0x00, 0x00, 0x00, 0x00, 0x00, 0x00, 0x00, 0x00, 0x00, 0x00, 0x00,
      0x00, 0x00, 0x00, 0x00, 0x00, 0x00, 0x00, 0x00]"

definition mixed_text :: string where
  "mixed_text =
     ''{'' @ [CHR 0x0A, CHR 0x22] @ ''sky'' @ [CHR 0x22] @ '' '' @ [CHR 0x22] @
     ''unit1_'' @ [CHR 0x22, CHR 0x0A, CHR 0x22] @ ''message'' @ [CHR 0x22] @
     '' '' @ [CHR 0x22] @ ''Frag Pit'' @ [CHR 0x22, CHR 0x0A, CHR 0x22] @
     ''noise'' @ [CHR 0x22] @ '' '' @ [CHR 0x22] @ ''world/b.wav'' @
     [CHR 0x22, CHR 0x0A, CHR 0x22] @ ''noise'' @ [CHR 0x22] @ '' '' @
     [CHR 0x22] @ ''world'' @ [CHR 0x5C] @ ''a.wav'' @
     [CHR 0x22, CHR 0x0A, CHR 0x22] @ ''noise'' @ [CHR 0x22] @ '' '' @
     [CHR 0x22] @ ''world/b.wav'' @ [CHR 0x22, CHR 0x0A, CHR 0x22] @
     ''classname'' @ [CHR 0x22] @ '' '' @ [CHR 0x22] @ ''weapon_shotgun'' @
     [CHR 0x22, CHR 0x0A] @ ''}'' @ [CHR 0x0A]"

definition mixed_buf :: buffer where
  "mixed_buf =
     [0x58, 0x58, 0x58, 0x58, 0x25, 0x00, 0x00, 0x00, 0xA0, 0x00, 0x00, 0x00,
      0x87, 0x00, 0x00, 0x00, 0x00, 0x00, 0x00, 0x00, 0x00, 0x00, 0x00, 0x00,
      0x00, 0x00, 0x00, 0x00, 0x00, 0x00, 0x00, 0x00, 0x00, 0x00, 0x00, 0x00,
      0x00, 0x00, 0x00, 0x00, 0x00, 0x00, 0x00, 0x00, 0x00, 0x00, 0x00, 0x00,
      0x27, 0x01, 0x00, 0x00, 0xE4, 0x00, 0x00, 0x00, 0x00, 0x00, 0x00, 0x00,
      0x00, 0x00, 0x00, 0x00, 0x00, 0x00, 0x00, 0x00, 0x00, 0x00, 0x00, 0x00,
      0x00, 0x00, 0x00, 0x00, 0x00, 0x00, 0x00, 0x00, 0x00, 0x00, 0x00, 0x00,
      0x00, 0x00, 0x00, 0x00, 0x00, 0x00, 0x00, 0x00, 0x00, 0x00, 0x00, 0x00,
      0x00, 0x00, 0x00, 0x00, 0x00, 0x00, 0x00, 0x00, 0x00, 0x00, 0x00, 0x00,
      0x00, 0x00, 0x00, 0x00, 0x00, 0x00, 0x00, 0x00, 0x00, 0x00, 0x00, 0x00,
      0x00, 0x00, 0x00, 0x00, 0x00, 0x00, 0x00, 0x00, 0x00, 0x00, 0x00, 0x00,
      0x00, 0x00, 0x00, 0x00, 0x00, 0x00, 0x00, 0x00, 0x00, 0x00, 0x00, 0x00,
      0x00, 0x00, 0x00, 0x00, 0x00, 0x00, 0x00, 0x00, 0x00, 0x00, 0x00, 0x00,
      0x00, 0x00, 0x00, 0x00, 0x7B, 0x0A, 0x22, 0x73, 0x6B, 0x79, 0x22, 0x20,
      0x22, 0x75, 0x6E, 0x69, 0x74, 0x31, 0x5F, 0x22, 0x0A, 0x22, 0x6D, 0x65,
      0x73, 0x73, 0x61, 0x67, 0x65, 0x22, 0x20, 0x22, 0x46, 0x72, 0x61, 0x67,
      0x20, 0x50, 0x69, 0x74, 0x22, 0x0A, 0x22, 0x6E, 0x6F, 0x69, 0x73, 0x65,
      0x22, 0x20, 0x22, 0x77, 0x6F, 0x72, 0x6C, 0x64, 0x2F, 0x62, 0x2E, 0x77,
      0x61, 0x76, 0x22, 0x0A, 0x22, 0x6E, 0x6F, 0x69, 0x73, 0x65, 0x22, 0x20,
      0x22, 0x77, 0x6F, 0x72, 0x6C, 0x64, 0x5C, 0x61, 0x2E, 0x77, 0x61, 0x76,
      0x22, 0x0A, 0x22, 0x6E, 0x6F, 0x69, 0x73, 0x65, 0x22, 0x20, 0x22, 0x77,
      0x6F, 0x72, 0x6C, 0x64, 0x2F, 0x62, 0x2E, 0x77, 0x61, 0x76, 0x22, 0x0A,
      0x22, 0x63, 0x6C, 0x61, 0x73, 0x73, 0x6E, 0x61, 0x6D, 0x65, 0x22, 0x20,
      0x22, 0x77, 0x65, 0x61, 0x70, 0x6F, 0x6E, 0x5F, 0x73, 0x68, 0x6F, 0x74,
      0x67, 0x75, 0x6E, 0x22, 0x0A, 0x7D, 0x0A, 0x00, 0x00, 0x00, 0x00, 0x00,
      0x00, 0x00, 0x00, 0x00, 0x00, 0x00, 0x00, 0x00, 0x00, 0x00, 0x00, 0x00,
      0x00, 0x00, 0x00, 0x00, 0x00, 0x00, 0x00, 0x00, 0x00, 0x00, 0x00, 0x00,
      0x00, 0x00, 0x00, 0x00, 0x00, 0x00, 0x00, 0x00, 0x00, 0x00, 0x00, 0x74,
      0x65, 0x78, 0x74, 0x75, 0x72, 0x65, 0x73, 0x2F, 0x2F, 0x77, 0x61, 0x6C,
      0x6C, 0x00, 0x00, 0x00, 0x00, 0x00, 0x00, 0x00, 0x00, 0x00, 0x00, 0x00,
      0x00, 0x00, 0x00, 0x00, 0x00, 0x00, 0x00, 0x00, 0x00, 0x00, 0x00, 0x00,
      0x00, 0x00, 0x00, 0x00, 0x00, 0x00, 0x00, 0x00, 0x00, 0x00, 0x00, 0x00,
      0x00, 0x00, 0x00, 0x00, 0x00, 0x00, 0x00, 0x00, 0x00, 0x00, 0x00, 0x00,
      0x00, 0x00, 0x00, 0x00, 0x00, 0x00, 0x00, 0x00, 0x00, 0x00, 0x00, 0x00,
      0x00, 0x00, 0x00, 0x65, 0x31, 0x75, 0x31, 0x2F, 0x66, 0x6C, 0x6F, 0x6F,
      0x72, 0x00, 0x00, 0x00, 0x00, 0x00, 0x00, 0x00, 0x00, 0x00, 0x00, 0x00,
      0x00, 0x00, 0x00, 0x00, 0x00, 0x00, 0x00, 0x00, 0x00, 0x00, 0x00, 0x00,
      0x00, 0x00, 0x00, 0x00, 0x00, 0x00, 0x00, 0x00, 0x00, 0x00, 0x00, 0x00,
      0x00, 0x00, 0x00, 0x00, 0x00, 0x00, 0x00, 0x00, 0x00, 0x00, 0x00, 0x00,
      0x00, 0x00, 0x00, 0x00, 0x00, 0x00, 0x00, 0x00, 0x00, 0x00, 0x00, 0x00,
      0x00, 0x00, 0x00, 0x00, 0x00, 0x00, 0x00, 0x74, 0x65, 0x78, 0x74, 0x75,
      0x72, 0x65, 0x73, 0x2F, 0x2F, 0x77, 0x61, 0x6C, 0x6C, 0x00, 0x00, 0x00,
      0x00, 0x00, 0x00, 0x00, 0x00, 0x00, 0x00, 0x00, 0x00, 0x00, 0x00, 0x00,
      0x00, 0x00, 0x00, 0x00, 0x00, 0x00, 0x00]"

definition neg_buf :: buffer where
  "neg_buf =
     [0x49, 0x42, 0x53, 0x50, 0x26, 0x00, 0x00, 0x00, 0xFF, 0xFF, 0xFF, 0xFF,
      0xAB, 0x00, 0x00, 0x00, 0x00, 0x00, 0x00, 0x00, 0x00, 0x00, 0x00, 0x00,
      0x00, 0x00, 0x00, 0x00, 0x00, 0x00, 0x00, 0x00, 0x00, 0x00, 0x00, 0x00,
      0x00, 0x00, 0x00, 0x00, 0x00, 0x00, 0x00, 0x00, 0x00, 0x00, 0x00, 0x00,
      0xD8, 0xFF, 0xFF, 0xFF, 0x4C, 0x00, 0x00, 0x00, 0x00, 0x00, 0x00, 0x00,
      0x00, 0x00, 0x00, 0x00, 0x00, 0x00, 0x00, 0x00, 0x00, 0x00, 0x00, 0x00,
      0x00, 0x00, 0x00, 0x00, 0x00, 0x00, 0x00, 0x00, 0x00, 0x00, 0x00, 0x00,
      0x00, 0x00, 0x00, 0x00, 0x00, 0x00, 0x00, 0x00, 0x00, 0x00, 0x00, 0x00,
      0x00, 0x00, 0x00, 0x00, 0x00, 0x00, 0x00, 0x00, 0x00, 0x00, 0x00, 0x00,
      0x00, 0x00, 0x00, 0x00, 0x00, 0x00, 0x00, 0x00, 0x00, 0x00, 0x00, 0x00,
      0x00, 0x00, 0x00, 0x00, 0x00, 0x00, 0x00, 0x00, 0x00, 0x00, 0x00, 0x00,
      0x00, 0x00, 0x00, 0x00, 0x00, 0x00, 0x00, 0x00, 0x00, 0x00, 0x00, 0x00,
      0x00, 0x00, 0x00, 0x00, 0x00, 0x00, 0x00, 0x00, 0x00, 0x00, 0x00, 0x00,
      0x00, 0x00, 0x00, 0x00, 0x22, 0x73, 0x6B, 0x79, 0x22, 0x20, 0x22, 0x75,
      0x31, 0x22]"




section \<open>Entity statistics\<close>

lemma stats_note_name [simp]: "out_entityStats (note_name k v out) = out_entityStats out"
  by (simp add: note_name_def)

lemma stats_note_version [simp]: "out_entityStats (note_version k v out) = out_entityStats out"
  by (simp add: note_version_def)

lemma stats_add_resource [simp]: "out_entityStats (add_resource k vv out) = out_entityStats out"
  by (simp add: add_resource_def)

lemma stats_process_pair:
  "out_entityStats (process_pair (k, v) out) =
     (if v \<noteq> [] \<and> k = ''classname''
      then classifyClassname (js_toLowerCase v) (out_entityStats out)
      else out_entityStats out)"
  by (simp add: process_pair_def count_classname_def)

lemma prefix_weapon_first: "prefix ''weapon_'' cls \<Longrightarrow> \<exists>rest. cls = CHR ''w'' # rest"
  by (auto elim: prefixE)

lemma prefix_item_first: "prefix ''item_armor_'' cls \<Longrightarrow> \<exists>rest. cls = CHR ''i'' # CHR ''t'' # rest"
  by (auto elim: prefixE)

lemma prefix_info_first: "prefix ''info_player_'' cls \<Longrightarrow> \<exists>rest. cls = CHR ''i'' # CHR ''n'' # rest"
  by (auto elim: prefixE)


subsection \<open>Evaluation of the sample texts\<close>

lemma shotgun_pairs:
  "pairs_loop shotgun_text 0 =
     [(''classname'', ''weapon_shotgun''), (''classname'', ''weapon_shotgun''),
      (''classname'', ''weapon_shotgun'')]"
  by code_simp

lemma spawn_pairs:
  "pairs_loop spawn_text 0 =
     [(''classname'', ''info_player_deathmatch''), (''classname'', ''info_player_start''),
      (''classname'', ''info_player_deathmatch'')]"
  by code_simp

lemma fragpit_pairs:
  "pairs_loop fragpit_text 0 =
     [(''classname'', ''worldspawn''), (''message'', ''Frag Pit''), (''mapversion'', []),
      (''version'', ''2''), (''classname'', ''target_help''), (''message'', ''Other Name''),
      (''version'', ''3'')]"
  by code_simp

lemma lower_samples:
  "js_toLowerCase ''weapon_shotgun'' = ''weapon_shotgun''"
  "js_toLowerCase ''info_player_deathmatch'' = ''info_player_deathmatch''"
  "js_toLowerCase ''info_player_start'' = ''info_player_start''"
  by code_simp+


subsection \<open>The dispatch of \<^verbatim>\<open>classifyClassname\<close>\<close>

lemma classify_weapon:
  "prefix ''weapon_'' cls \<Longrightarrow> classifyClassname cls es = es\<lparr>weapons := inc_key (weapons es) cls\<rparr>"
  by (simp add: classifyClassname_def)

lemma classify_armor:
  "\<not> prefix ''weapon_'' cls \<Longrightarrow> prefix ''item_armor_'' cls \<Longrightarrow>
   classifyClassname cls es = es\<lparr>armors := inc_key (armors es) cls\<rparr>"
  by (simp add: classifyClassname_def)

lemma classify_info_player:
  "\<not> prefix ''weapon_'' cls \<Longrightarrow> \<not> prefix ''item_armor_'' cls \<Longrightarrow> prefix ''info_player_'' cls \<Longrightarrow>
   classifyClassname cls es =
     es\<lparr>spawnPoints :=
       (if cls = ''info_player_deathmatch''
          then (spawnPoints es)\<lparr>deathmatch := deathmatch (spawnPoints es) + 1\<rparr>
        else if cls = ''info_player_start''
          then (spawnPoints es)\<lparr>start := start (spawnPoints es) + 1\<rparr>
        else if cls = ''info_player_coop''
          then (spawnPoints es)\<lparr>coop := coop (spawnPoints es) + 1\<rparr>
        else if cls = ''info_player_intermission''
          then (spawnPoints es)\<lparr>intermission := intermission (spawnPoints es) + 1\<rparr>
        else spawnPoints es)\<rparr>"
  by (simp add: classifyClassname_def)

lemma classify_rest:
  "\<not> prefix ''weapon_'' cls \<Longrightarrow> \<not> prefix ''item_armor_'' cls \<Longrightarrow> \<not> prefix ''info_player_'' cls \<Longrightarrow>
   classifyClassname cls es =
     (if cls \<in> set interestingItems then es\<lparr>items := inc_key (items es) cls\<rparr> else es)"
  by (simp add: classifyClassname_def)

lemma shotgun_stats:
  "out_entityStats (extractFromEntities shotgun_text empty_out) =
     createEmptyEntityStats\<lparr>weapons := [''weapon_shotgun'' \<mapsto> 3]\<rparr>"
  by (simp add: extractFromEntities_def shotgun_pairs stats_process_pair lower_samples
      classifyClassname_def inc_key_def empty_out_def createEmptyEntityStats_def
      numeral_3_eq_3)

lemma set_interestingItems:
  "set interestingItems =
     {''item_health'', ''item_health_large'', ''item_health_mega'', ''item_quad'',
      ''item_invulnerability'', ''item_adrenaline'', ''item_bandolier'',
      ''item_pack'', ''item_power_screen'', ''item_power_shield''}"
  unfolding interestingItems_def by (simp only: list.set)

text \<open>
  C3. The class name is classified by the first test that applies: the prefix
  \<^verbatim>\<open>weapon_\<close> counts it under \<open>weapons\<close>; otherwise the prefix \<^verbatim>\<open>item_armor_\<close> counts it
  under \<open>armors\<close>; otherwise the prefix \<^verbatim>\<open>info_player_\<close> adds one to the spawn counter
  that has the name of the class (\<open>deathmatch\<close>, \<open>start\<close>, \<open>coop\<close> or \<open>intermission\<close>) and
  to nothing else, and changes nothing when no counter has that name; otherwise membership in the list of ten item names counts it under \<open>items\<close>, and
  anything else leaves the statistics as they are. An entity text with the pair
  \<^verbatim>\<open>"classname" "weapon_shotgun"\<close> three times gives the count 3 for that name and
  changes no other counter.
\<close>

theorem classifyClassname_dispatch:
  "(prefix ''weapon_'' cls \<longrightarrow>
      classifyClassname cls es = es\<lparr>weapons := inc_key (weapons es) cls\<rparr>)
   \<and> (\<not> prefix ''weapon_'' cls \<longrightarrow> prefix ''item_armor_'' cls \<longrightarrow>
      classifyClassname cls es = es\<lparr>armors := inc_key (armors es) cls\<rparr>)
   \<and> (\<not> prefix ''weapon_'' cls \<longrightarrow> \<not> prefix ''item_armor_'' cls \<longrightarrow> prefix ''info_player_'' cls \<longrightarrow>
      classifyClassname cls es =
        es\<lparr>spawnPoints :=
          (if cls = ''info_player_deathmatch''
             then (spawnPoints es)\<lparr>deathmatch := deathmatch (spawnPoints es) + 1\<rparr>
           else if cls = ''info_player_start''
             then (spawnPoints es)\<lparr>start := start (spawnPoints es) + 1\<rparr>
           else if cls = ''info_player_coop''
             then (spawnPoints es)\<lparr>coop := coop (spawnPoints es) + 1\<rparr>
           else if cls = ''info_player_intermission''
             then (spawnPoints es)\<lparr>intermission := intermission (spawnPoints es) + 1\<rparr>
           else spawnPoints es)\<rparr>)
   \<and> (\<not> prefix ''weapon_'' cls \<longrightarrow> \<not> prefix ''item_armor_'' cls \<longrightarrow> \<not> prefix ''info_player_'' cls \<longrightarrow>
      classifyClassname cls es =
        (if cls \<in> set interestingItems then es\<lparr>items := inc_key (items es) cls\<rparr> else es))
   \<and> set interestingItems =
       {''item_health'', ''item_health_large'', ''item_health_mega'', ''item_quad'',
        ''item_invulnerability'', ''item_adrenaline'', ''item_bandolier'',
        ''item_pack'', ''item_power_screen'', ''item_power_shield''}
   \<and> inc_key m cls = m(cls \<mapsto> (case m cls of None \<Rightarrow> 0 | Some n \<Rightarrow> n) + 1)
   \<and> out_entityStats (extractFromEntities shotgun_text empty_out) =
       createEmptyEntityStats\<lparr>weapons := [''weapon_shotgun'' \<mapsto> 3]\<rparr>"
proof (intro conjI impI)
  show "inc_key m cls = m(cls \<mapsto> (case m cls of None \<Rightarrow> 0 | Some n \<Rightarrow> n) + 1)"
    by (rule inc_key_def)
  show "out_entityStats (extractFromEntities shotgun_text empty_out) =
       createEmptyEntityStats\<lparr>weapons := [''weapon_shotgun'' \<mapsto> 3]\<rparr>"
    by (rule shotgun_stats)
  show "set interestingItems =
       {''item_health'', ''item_health_large'', ''item_health_mega'', ''item_quad'',
        ''item_invulnerability'', ''item_adrenaline'', ''item_bandolier'',
        ''item_pack'', ''item_power_screen'', ''item_power_shield''}"
    by (rule set_interestingItems)
next
  assume "prefix ''weapon_'' cls"
  then show "classifyClassname cls es = es\<lparr>weapons := inc_key (weapons es) cls\<rparr>"
    by (rule classify_weapon)
next
  assume "\<not> prefix ''weapon_'' cls" "prefix ''item_armor_'' cls"
  then show "classifyClassname cls es = es\<lparr>armors := inc_key (armors es) cls\<rparr>"
    by (rule classify_armor)
next
  assume "\<not> prefix ''weapon_'' cls" "\<not> prefix ''item_armor_'' cls" "prefix ''info_player_'' cls"
  then show "classifyClassname cls es =
        es\<lparr>spawnPoints :=
          (if cls = ''info_player_deathmatch''
             then (spawnPoints es)\<lparr>deathmatch := deathmatch (spawnPoints es) + 1\<rparr>
           else if cls = ''info_player_start''
             then (spawnPoints es)\<lparr>start := start (spawnPoints es) + 1\<rparr>
           else if cls = ''info_player_coop''
             then (spawnPoints es)\<lparr>coop := coop (spawnPoints es) + 1\<rparr>
           else if cls = ''info_player_intermission''
             then (spawnPoints es)\<lparr>intermission := intermission (spawnPoints es) + 1\<rparr>
           else spawnPoints es)\<rparr>"
    by (rule classify_info_player)
next
  assume "\<not> prefix ''weapon_'' cls" "\<not> prefix ''item_armor_'' cls" "\<not> prefix ''info_player_'' cls"
  then show "classifyClassname cls es =
        (if cls \<in> set interestingItems then es\<lparr>items := inc_key (items es) cls\<rparr> else es)"
    by (rule classify_rest)
qed

theorem classifyClassname_dispatch_witness:
  "classifyClassname ''weapon_shotgun'' createEmptyEntityStats =
     createEmptyEntityStats\<lparr>weapons := [''weapon_shotgun'' \<mapsto> 1]\<rparr>
   \<and> classifyClassname ''item_armor_body'' createEmptyEntityStats =
     createEmptyEntityStats\<lparr>armors := [''item_armor_body'' \<mapsto> 1]\<rparr>
   \<and> classifyClassname ''info_player_coop'' createEmptyEntityStats =
     createEmptyEntityStats\<lparr>spawnPoints := \<lparr>deathmatch = 0, coop = 1, start = 0, intermission = 0\<rparr>\<rparr>
   \<and> classifyClassname ''info_player_team1'' createEmptyEntityStats = createEmptyEntityStats
   \<and> classifyClassname ''item_quad'' createEmptyEntityStats =
     createEmptyEntityStats\<lparr>items := [''item_quad'' \<mapsto> 1]\<rparr>
   \<and> classifyClassname ''func_door'' createEmptyEntityStats = createEmptyEntityStats"
proof (intro conjI)
  have w: "weapons createEmptyEntityStats = Map.empty" "armors createEmptyEntityStats = Map.empty"
    "items createEmptyEntityStats = Map.empty"
    by (simp_all add: createEmptyEntityStats_def)
  show "classifyClassname ''weapon_shotgun'' createEmptyEntityStats =
     createEmptyEntityStats\<lparr>weapons := [''weapon_shotgun'' \<mapsto> 1]\<rparr>"
    using classifyClassname_dispatch [of "''weapon_shotgun''" createEmptyEntityStats Map.empty]
    by (simp add: inc_key_def w)
  show "classifyClassname ''item_armor_body'' createEmptyEntityStats =
     createEmptyEntityStats\<lparr>armors := [''item_armor_body'' \<mapsto> 1]\<rparr>"
    using classifyClassname_dispatch [of "''item_armor_body''" createEmptyEntityStats Map.empty]
    by (simp add: inc_key_def w)
  show "classifyClassname ''info_player_coop'' createEmptyEntityStats =
     createEmptyEntityStats\<lparr>spawnPoints := \<lparr>deathmatch = 0, coop = 1, start = 0, intermission = 0\<rparr>\<rparr>"
    using classifyClassname_dispatch [of "''info_player_coop''" createEmptyEntityStats Map.empty]
    by (simp add: createEmptyEntityStats_def)
  show "classifyClassname ''info_player_team1'' createEmptyEntityStats = createEmptyEntityStats"
    using classifyClassname_dispatch [of "''info_player_team1''" createEmptyEntityStats Map.empty]
    by simp
  show "classifyClassname ''item_quad'' createEmptyEntityStats =
     createEmptyEntityStats\<lparr>items := [''item_quad'' \<mapsto> 1]\<rparr>"
    using classifyClassname_dispatch [of "''item_quad''" createEmptyEntityStats Map.empty]
    by (simp add: inc_key_def w)
  show "classifyClassname ''func_door'' createEmptyEntityStats = createEmptyEntityStats"
    using classifyClassname_dispatch [of "''func_door''" createEmptyEntityStats Map.empty]
    by simp
qed


subsection \<open>Spawn points\<close>

lemma info_player_not_weapon:
  assumes "prefix ''info_player_'' cls"
  shows "\<not> prefix ''weapon_'' cls" and "\<not> prefix ''item_armor_'' cls"
proof -
  from assms obtain rest where "cls = ''info_player_'' @ rest" by (auto elim: prefixE)
  then show "\<not> prefix ''weapon_'' cls" and "\<not> prefix ''item_armor_'' cls" by simp_all
qed

lemma spawn_stats:
  "spawnPoints (out_entityStats (extractFromEntities spawn_text empty_out)) =
     \<lparr>deathmatch = 2, coop = 0, start = 1, intermission = 0\<rparr>"
  by (simp add: extractFromEntities_def spawn_pairs stats_process_pair lower_samples
      classifyClassname_def empty_out_def createEmptyEntityStats_def numeral_2_eq_2)

text \<open>
  C4. A class name with the prefix \<^verbatim>\<open>info_player_\<close> adds one to the spawn counter of
  its name when it is one of \<^verbatim>\<open>info_player_deathmatch\<close>, \<^verbatim>\<open>info_player_start\<close>,
  \<^verbatim>\<open>info_player_coop\<close> and \<^verbatim>\<open>info_player_intermission\<close>, and leaves the statistics
  untouched otherwise; the function returns the statistics only, so nothing is reported.
  Two \<^verbatim>\<open>info_player_deathmatch\<close> and one \<^verbatim>\<open>info_player_start\<close> give the spawn points
  \<open>deathmatch = 2, start = 1, coop = 0, intermission = 0\<close>.
\<close>

theorem info_player_spawn_counters:
  "(prefix ''info_player_'' cls \<longrightarrow>
      classifyClassname cls es =
        (if cls = ''info_player_deathmatch''
           then es\<lparr>spawnPoints := (spawnPoints es)\<lparr>deathmatch := deathmatch (spawnPoints es) + 1\<rparr>\<rparr>
         else if cls = ''info_player_start''
           then es\<lparr>spawnPoints := (spawnPoints es)\<lparr>start := start (spawnPoints es) + 1\<rparr>\<rparr>
         else if cls = ''info_player_coop''
           then es\<lparr>spawnPoints := (spawnPoints es)\<lparr>coop := coop (spawnPoints es) + 1\<rparr>\<rparr>
         else if cls = ''info_player_intermission''
           then es\<lparr>spawnPoints :=
                    (spawnPoints es)\<lparr>intermission := intermission (spawnPoints es) + 1\<rparr>\<rparr>
         else es))
   \<and> spawnPoints (out_entityStats (extractFromEntities spawn_text empty_out)) =
       \<lparr>deathmatch = 2, coop = 0, start = 1, intermission = 0\<rparr>"
proof (intro conjI impI)
  assume p: "prefix ''info_player_'' cls"
  show "classifyClassname cls es =
        (if cls = ''info_player_deathmatch''
           then es\<lparr>spawnPoints := (spawnPoints es)\<lparr>deathmatch := deathmatch (spawnPoints es) + 1\<rparr>\<rparr>
         else if cls = ''info_player_start''
           then es\<lparr>spawnPoints := (spawnPoints es)\<lparr>start := start (spawnPoints es) + 1\<rparr>\<rparr>
         else if cls = ''info_player_coop''
           then es\<lparr>spawnPoints := (spawnPoints es)\<lparr>coop := coop (spawnPoints es) + 1\<rparr>\<rparr>
         else if cls = ''info_player_intermission''
           then es\<lparr>spawnPoints :=
                    (spawnPoints es)\<lparr>intermission := intermission (spawnPoints es) + 1\<rparr>\<rparr>
         else es)"
    unfolding classify_info_player [OF info_player_not_weapon [OF p] p] by simp
next
  show "spawnPoints (out_entityStats (extractFromEntities spawn_text empty_out)) =
       \<lparr>deathmatch = 2, coop = 0, start = 1, intermission = 0\<rparr>"
    by (rule spawn_stats)
qed

theorem info_player_spawn_counters_witness:
  "prefix ''info_player_'' ''info_player_coop''
   \<and> spawnPoints (classifyClassname ''info_player_coop'' createEmptyEntityStats) =
       \<lparr>deathmatch = 0, coop = 1, start = 0, intermission = 0\<rparr>
   \<and> prefix ''info_player_'' ''info_player_team1''
   \<and> classifyClassname ''info_player_team1'' createEmptyEntityStats = createEmptyEntityStats"
  using info_player_spawn_counters [of "''info_player_coop''" createEmptyEntityStats]
    info_player_spawn_counters [of "''info_player_team1''" createEmptyEntityStats]
  by (simp add: createEmptyEntityStats_def)

section \<open>Map name and map version\<close>

lemma worldInfo_add_resource [simp]: "out_worldInfo (add_resource k vv out) = out_worldInfo out"
  by (simp add: add_resource_def)

lemma worldInfo_count_classname [simp]:
  "out_worldInfo (count_classname k v out) = out_worldInfo out"
  by (simp add: count_classname_def)

lemma name_note_version [simp]:
  "name (out_worldInfo (note_version k v out)) = name (out_worldInfo out)"
  by (simp add: note_version_def)

lemma version_note_name [simp]:
  "version (out_worldInfo (note_name k v out)) = version (out_worldInfo out)"
  by (simp add: note_name_def)

lemma name_process_pair:
  "name (out_worldInfo (process_pair (k, v) out)) =
     (if v \<noteq> [] \<and> (k = ''message'' \<or> k = ''map'' \<or> k = ''mapname'')
         \<and> falsy (name (out_worldInfo out))
      then Some v else name (out_worldInfo out))"
  by (simp add: process_pair_def note_name_def)

lemma version_process_pair:
  "version (out_worldInfo (process_pair (k, v) out)) =
     (if v \<noteq> [] \<and> (k = ''mapversion'' \<or> k = ''version'')
         \<and> falsy (version (out_worldInfo out))
      then Some v else version (out_worldInfo out))"
  by (simp add: process_pair_def note_version_def)

lemma first_wins_fold:
  assumes step: "\<And>k v out. g (f (k, v) out) =
     (if v \<noteq> [] \<and> P k \<and> falsy (g out) then Some v else g out)"
  shows "g (fold f ps out) =
     (if falsy (g out)
      then (case find (\<lambda>(k, v). v \<noteq> [] \<and> P k) ps of
              None \<Rightarrow> g out
            | Some kv \<Rightarrow> Some (snd kv))
      else g out)"
proof (induction ps arbitrary: out)
  case Nil
  show ?case by simp
next
  case (Cons p ps)
  obtain k v where p: "p = (k, v)" by (cases p)
  show ?case
    unfolding p fold_Cons comp_apply Cons.IH step
    by (auto simp: falsy_def)
qed

lemma name_fold:
  "name (out_worldInfo (fold process_pair ps out)) =
     (if falsy (name (out_worldInfo out))
      then (case find (\<lambda>(k, v). v \<noteq> [] \<and> (k = ''message'' \<or> k = ''map'' \<or> k = ''mapname'')) ps of
              None \<Rightarrow> name (out_worldInfo out)
            | Some kv \<Rightarrow> Some (snd kv))
      else name (out_worldInfo out))"
  by (rule first_wins_fold
      [where g = "\<lambda>out. name (out_worldInfo out)" and f = process_pair
         and P = "\<lambda>k. k = ''message'' \<or> k = ''map'' \<or> k = ''mapname''"])
    (rule name_process_pair)

lemma version_fold:
  "version (out_worldInfo (fold process_pair ps out)) =
     (if falsy (version (out_worldInfo out))
      then (case find (\<lambda>(k, v). v \<noteq> [] \<and> (k = ''mapversion'' \<or> k = ''version'')) ps of
              None \<Rightarrow> version (out_worldInfo out)
            | Some kv \<Rightarrow> Some (snd kv))
      else version (out_worldInfo out))"
  by (rule first_wins_fold
      [where g = "\<lambda>out. version (out_worldInfo out)" and f = process_pair
         and P = "\<lambda>k. k = ''mapversion'' \<or> k = ''version''"])
    (rule version_process_pair)

text \<open>
  C5. Over the flat stream of pairs, the map name is the raw value of the first pair
  with a non-empty value whose key is \<^verbatim>\<open>message\<close>, \<^verbatim>\<open>map\<close> or \<^verbatim>\<open>mapname\<close>, and the map
  version that of the first such pair with the key \<^verbatim>\<open>mapversion\<close> or \<^verbatim>\<open>version\<close>; later
  pairs do not change them, and a pair with an empty value changes nothing at all. With
  \<^verbatim>\<open>"message" "Frag Pit"\<close> before \<^verbatim>\<open>"message" "Other Name"\<close> the map name is
  \<^verbatim>\<open>Frag Pit\<close>.
\<close>

theorem map_name_first_occurrence:
  "name (out_worldInfo (extractFromEntities tx empty_out)) =
     map_option snd
       (find (\<lambda>(k, v). v \<noteq> [] \<and> (k = ''message'' \<or> k = ''map'' \<or> k = ''mapname''))
          (pairs_loop tx 0))
   \<and> version (out_worldInfo (extractFromEntities tx empty_out)) =
     map_option snd
       (find (\<lambda>(k, v). v \<noteq> [] \<and> (k = ''mapversion'' \<or> k = ''version'')) (pairs_loop tx 0))
   \<and> process_pair (k, []) out = out
   \<and> or_null (name (out_worldInfo (extractFromEntities fragpit_text empty_out))) =
       Some ''Frag Pit''
   \<and> or_null (version (out_worldInfo (extractFromEntities fragpit_text empty_out))) =
       Some ''2''"
proof -
  have e: "name (out_worldInfo empty_out) = None" "version (out_worldInfo empty_out) = None"
    by (simp_all add: empty_out_def)
  have n: "name (out_worldInfo (extractFromEntities t empty_out)) =
     map_option snd
       (find (\<lambda>(k, v). v \<noteq> [] \<and> (k = ''message'' \<or> k = ''map'' \<or> k = ''mapname''))
          (pairs_loop t 0))" for t
    unfolding extractFromEntities_def name_fold e by (simp add: falsy_def split: option.split)
  have v: "version (out_worldInfo (extractFromEntities t empty_out)) =
     map_option snd
       (find (\<lambda>(k, v). v \<noteq> [] \<and> (k = ''mapversion'' \<or> k = ''version'')) (pairs_loop t 0))" for t
    unfolding extractFromEntities_def version_fold e by (simp add: falsy_def split: option.split)
  have s: "process_pair (k, []) out = out"
    by (simp add: process_pair_def)
  have f1: "or_null (name (out_worldInfo (extractFromEntities fragpit_text empty_out))) =
       Some ''Frag Pit''"
    unfolding n fragpit_pairs by (simp add: or_null_def falsy_def)
  have f2: "or_null (version (out_worldInfo (extractFromEntities fragpit_text empty_out))) =
       Some ''2''"
    unfolding v fragpit_pairs by (simp add: or_null_def falsy_def)
  from n v s f1 f2 show ?thesis by blast
qed

theorem map_name_first_occurrence_witness:
  "name (out_worldInfo (extractFromEntities fragpit_text empty_out)) = Some ''Frag Pit''
   \<and> version (out_worldInfo (extractFromEntities fragpit_text empty_out)) = Some ''2''
   \<and> process_pair (''message'', []) empty_out = empty_out"
  using map_name_first_occurrence [of fragpit_text "''message''" empty_out]
  by (simp add: fragpit_pairs)


section \<open>What the regular expressions of the program match\<close>

lemma rx_search_None_iff:
  "rx_search r s i = None \<longleftrightarrow> (\<forall>j. i \<le> j \<and> j \<le> length s \<longrightarrow> rx_run r s (j, []) = [])"
proof (induction r s i rule: rx_search.induct)
  case (1 r s i)
  show ?case
  proof (cases "length s < i")
    case True
    then show ?thesis by (auto simp: rx_search.simps [of r s i])
  next
    case False
    show ?thesis
    proof (cases "rx_run r s (i, [])")
      case Nil
      have "(\<forall>j. i \<le> j \<and> j \<le> length s \<longrightarrow> rx_run r s (j, []) = []) \<longleftrightarrow>
            (\<forall>j. Suc i \<le> j \<and> j \<le> length s \<longrightarrow> rx_run r s (j, []) = [])"
        using Nil by (metis Suc_leI le_neq_implies_less Suc_leD)
      with "1.IH" [OF False Nil] False Nil show ?thesis
        by (simp add: rx_search.simps [of r s i])
    next
      case (Cons st sts)
      with False have l: "rx_search r s i \<noteq> None"
        by (simp add: rx_search.simps [of r s i] split: prod.splits)
      from False Cons have "\<not> (\<forall>j. i \<le> j \<and> j \<le> length s \<longrightarrow> rx_run r s (j, []) = [])"
        by (metis le_refl linorder_not_less list.distinct(1))
      with l show ?thesis by blast
    qed
  qed
qed

lemma rx_test_iff: "rx_test r s \<longleftrightarrow> (\<exists>j\<le>length s. rx_run r s (j, []) \<noteq> [])"
  unfolding rx_test_def rx_search_None_iff by auto

lemma rx_search_anchored:
  "rx_search (Seq Bol r) s 0 =
     (case rx_run r s (0, []) of [] \<Rightarrow> None | (e, cs) # _ \<Rightarrow> Some (0, e, cs))"
proof (cases "rx_run r s (0, [])")
  case Nil
  have "rx_run (Seq Bol r) s (j, []) = []" for j
    using Nil by (cases "j = 0") simp_all
  then have "rx_search (Seq Bol r) s 0 = None"
    unfolding rx_search_None_iff by simp
  with Nil show ?thesis by simp
next
  case (Cons st sts)
  then show ?thesis
    by (simp add: rx_search.simps [of "Seq Bol r" s 0] split: prod.splits)
qed

lemma rx_test_anchored: "rx_test (Seq Bol r) s \<longleftrightarrow> rx_run r s (0, []) \<noteq> []"
  unfolding rx_test_def rx_search_anchored by (simp split: list.splits)

subsection \<open>Prefixes, infixes and suffixes by position\<close>

lemma prefix_iff_take: "prefix xs ys \<longleftrightarrow> take (length xs) ys = xs"
  by (metis append_eq_conv_conj prefix_def append_take_drop_id)

lemma sublist_iff_take_drop:
  "sublist xs ys \<longleftrightarrow> (\<exists>j\<le>length ys. take (length xs) (drop j ys) = xs)"
proof
  assume "sublist xs ys"
  then obtain ps ss where ys: "ys = ps @ xs @ ss" by (auto simp: sublist_def)
  then have "length ps \<le> length ys" and "take (length xs) (drop (length ps) ys) = xs" by simp_all
  then show "\<exists>j\<le>length ys. take (length xs) (drop j ys) = xs" by blast
next
  assume "\<exists>j\<le>length ys. take (length xs) (drop j ys) = xs"
  then obtain j where j: "take (length xs) (drop j ys) = xs" by blast
  have "ys = take j ys @ take (length xs) (drop j ys) @ drop (length xs) (drop j ys)"
    by (simp only: append_take_drop_id)
  with j have "ys = take j ys @ xs @ drop (length xs) (drop j ys)" by simp
  then show "sublist xs ys" unfolding sublist_def by blast
qed

lemma suffix_iff_take_drop:
  "suffix xs ys \<longleftrightarrow>
     (\<exists>j\<le>length ys. take (length xs) (drop j ys) = xs \<and> j + length xs = length ys)"
proof
  assume "suffix xs ys"
  then obtain ps where ys: "ys = ps @ xs" by (auto simp: suffix_def)
  then have "length ps \<le> length ys" "take (length xs) (drop (length ps) ys) = xs"
    "length ps + length xs = length ys" by simp_all
  then show "\<exists>j\<le>length ys. take (length xs) (drop j ys) = xs \<and> j + length xs = length ys"
    by blast
next
  assume "\<exists>j\<le>length ys. take (length xs) (drop j ys) = xs \<and> j + length xs = length ys"
  then obtain j where j: "take (length xs) (drop j ys) = xs" "j + length xs = length ys"
    by blast
  then have "drop j ys = xs" by (metis add_diff_cancel_left' length_drop order_refl take_all)
  then have "ys = take j ys @ xs" by (metis append_take_drop_id)
  then show "suffix xs ys" unfolding suffix_def by blast
qed

lemma canon_take_drop: "map canon_char (take n (drop j s)) = take n (drop j (map canon_char s))"
  by (simp add: take_map drop_map)

subsection \<open>The key tests\<close>

lemma rx_test_sound_key: "rx_test re_sound_key k \<longleftrightarrow> prefix ''sound'' k"
  unfolding re_sound_key_def rx_test_anchored
  by (simp add: lit_matches_def prefix_iff_take eq_commute del: length_Cons)

lemma rx_test_four_alternatives:
  "rx_test (Alt (Seq Bol (Lit True a)) (Alt (Lit True b) (Alt (Lit True c) (Seq (Lit True d) Eol)))) k
   \<longleftrightarrow>
     prefix (map canon_char a) (map canon_char k)
     \<or> sublist (map canon_char b) (map canon_char k)
     \<or> sublist (map canon_char c) (map canon_char k)
     \<or> suffix (map canon_char d) (map canon_char k)"
  (is "rx_test ?r k \<longleftrightarrow> ?rhs")
proof -
  let ?f = "map canon_char"
  have run: "rx_run ?r k (j, []) \<noteq> [] \<longleftrightarrow>
       (j = 0 \<and> ?f (take (length a) k) = ?f a)
       \<or> ?f (take (length b) (drop j k)) = ?f b
       \<or> ?f (take (length c) (drop j k)) = ?f c
       \<or> (?f (take (length d) (drop j k)) = ?f d \<and> j + length d = length k)" for j
    by (auto simp: lit_matches_def split: if_splits)
  have "rx_test ?r k \<longleftrightarrow>
       ?f (take (length a) k) = ?f a
       \<or> (\<exists>j\<le>length k. ?f (take (length b) (drop j k)) = ?f b)
       \<or> (\<exists>j\<le>length k. ?f (take (length c) (drop j k)) = ?f c)
       \<or> (\<exists>j\<le>length k. ?f (take (length d) (drop j k)) = ?f d \<and> j + length d = length k)"
    unfolding rx_test_iff run by auto
  then show ?thesis
    by (simp add: prefix_iff_take sublist_iff_take_drop suffix_iff_take_drop take_map drop_map)
qed

lemma rx_test_other_key:
  "rx_test re_other_key k \<longleftrightarrow>
     prefix (map canon_char ''path'') (map canon_char k)
     \<or> sublist (map canon_char ''file'') (map canon_char k)
     \<or> sublist (map canon_char ''script'') (map canon_char k)
     \<or> suffix (map canon_char ''shader'') (map canon_char k)"
  unfolding re_other_key_def by (rule rx_test_four_alternatives)

section \<open>The catch-all bucket\<close>

lemma others_note_name [simp]: "out_others (note_name k v out) = out_others out"
  by (simp add: note_name_def)

lemma others_note_version [simp]: "out_others (note_version k v out) = out_others out"
  by (simp add: note_version_def)

lemma others_count_classname [simp]: "out_others (count_classname k v out) = out_others out"
  by (simp add: count_classname_def)

lemma canon_samples:
  "map canon_char ''path'' = ''PATH''"
  "map canon_char ''file'' = ''FILE''"
  "map canon_char ''script'' = ''SCRIPT''"
  "map canon_char ''shader'' = ''SHADER''"
  "map canon_char ''profiled'' = ''PROFILED''"
  "map canon_char ''target'' = ''TARGET''"
  by code_simp+

text \<open>
  C10. A pair with a non-empty value whose key is none of \<^verbatim>\<open>sky\<close>, \<^verbatim>\<open>model\<close>,
  \<^verbatim>\<open>music\<close>, \<^verbatim>\<open>cdtrack\<close>, \<^verbatim>\<open>wav\<close>, \<^verbatim>\<open>wad\<close>, \<^verbatim>\<open>noise\<close>, \<^verbatim>\<open>snd\<close> and does not start
  with \<^verbatim>\<open>sound\<close> adds \<^verbatim>\<open><key>=<value with forward slashes>\<close> to the bucket
  \<open>others\<close> exactly when, ignoring case, the key starts with \<^verbatim>\<open>path\<close>, or contains
  \<^verbatim>\<open>file\<close>, or contains \<^verbatim>\<open>script\<close>, or ends with \<^verbatim>\<open>shader\<close>; otherwise the bucket
  stays as it is. The key \<^verbatim>\<open>profiled\<close> qualifies, since it contains \<^verbatim>\<open>file\<close>.
\<close>

theorem others_bucket_rule:
  assumes "v \<noteq> []"
    and "k \<noteq> ''sky''" and "k \<noteq> ''model''"
    and "k \<noteq> ''music''" and "k \<noteq> ''cdtrack''" and "k \<noteq> ''wav''"
    and "k \<noteq> ''wad''"
    and "k \<noteq> ''noise''" and "k \<noteq> ''snd''" and "\<not> prefix ''sound'' k"
  shows "out_others (process_pair (k, v) out) =
     (if prefix (map canon_char ''path'') (map canon_char k)
         \<or> sublist (map canon_char ''file'') (map canon_char k)
         \<or> sublist (map canon_char ''script'') (map canon_char k)
         \<or> suffix (map canon_char ''shader'') (map canon_char k)
      then Set_add (k @ ''='' @ replace_backslashes v) (out_others out)
      else out_others out)"
proof -
  from assms(10) have "k \<noteq> ''sound''" by auto
  with assms show ?thesis
    unfolding process_pair_def add_resource_def rx_test_sound_key rx_test_other_key
    by simp
qed

theorem others_bucket_rule_witness:
  "out_others (process_pair (''profiled'', [CHR ''a'', CHR 0x5C, CHR ''b'']) empty_out) =
     [''profiled=a/b'']
   \<and> out_others (process_pair (''target'', ''t1'') empty_out) = []"
proof
  show "out_others (process_pair (''profiled'', [CHR ''a'', CHR 0x5C, CHR ''b'']) empty_out) =
     [''profiled=a/b'']"
    using others_bucket_rule
      [of "[CHR ''a'', CHR 0x5C, CHR ''b'']" "''profiled''" empty_out, unfolded canon_samples]
    by (simp add: canon_samples sublist_code Set_add_def empty_out_def replace_backslashes_def
        slash_char_def)
  show "out_others (process_pair (''target'', ''t1'') empty_out) = []"
    using others_bucket_rule [of "''t1''" "''target''" empty_out, unfolded canon_samples]
    by (simp add: canon_samples sublist_code suffix_to_prefix empty_out_def)
qed


section \<open>Texture names\<close>

lemma rev_upt_length:
  "xs \<noteq> [] \<Longrightarrow> rev [Suc 0..<Suc (length xs)] = length xs # rev [Suc 0..<length xs]"
  by (cases xs) simp_all

lemma rx_remove_first_prefix_run:
  "rx_remove_first (Seq Bol (Seq (Lit True t) (Plus p))) s =
     (if map canon_char (take (length t) s) = map canon_char t
         \<and> takeWhile p (drop (length t) s) \<noteq> []
      then dropWhile p (drop (length t) s) else s)"
proof -
  let ?m = "length (takeWhile p (drop (length t) s))"
  have run: "rx_run (Seq (Lit True t) (Plus p)) s (0, []) =
      (if map canon_char (take (length t) s) = map canon_char t
       then map (\<lambda>n. (length t + n, [])) (rev [1..<Suc ?m]) else [])"
    by (simp add: lit_matches_def eq_commute)
  show ?thesis
  proof (cases "map canon_char (take (length t) s) = map canon_char t \<and> 0 < ?m")
    case True
    then have "rx_run (Seq (Lit True t) (Plus p)) s (0, []) =
        (length t + ?m, []) # map (\<lambda>n. (length t + n, [])) (rev [1..<?m])"
      unfolding run by (simp del: upt_Suc add: rev_upt_length)
    then have "rx_remove_first (Seq Bol (Seq (Lit True t) (Plus p))) s = drop (length t + ?m) s"
      unfolding rx_remove_first_def rx_search_anchored by simp
    also have "\<dots> = dropWhile p (drop (length t) s)"
      by (simp add: dropWhile_eq_drop add.commute)
    finally show ?thesis using True by simp
  next
    case False
    then have "rx_run (Seq (Lit True t) (Plus p)) s (0, []) = []"
      unfolding run by auto
    then have "rx_remove_first (Seq Bol (Seq (Lit True t) (Plus p))) s = s"
      unfolding rx_remove_first_def rx_search_anchored by simp
    with False show ?thesis by auto
  qed
qed

lemma length_textures: "length ''textures'' = 8"
  by simp

lemma strip_textures_prefix:
  "rx_remove_first re_textures_prefix nm =
     (if map canon_char (take 8 nm) = map canon_char ''textures''
         \<and> takeWhile is_sep (drop 8 nm) \<noteq> []
      then dropWhile is_sep (drop 8 nm) else nm)"
  unfolding re_textures_prefix_def rx_remove_first_prefix_run length_textures ..

lemma normalized_no_backslash: "CHR 0x5C \<notin> set (normalized nm)"
  by (auto simp: normalized_def replace_backslashes_def slash_char_def)

lemma restrip_texture_path:
  "rx_remove_first re_textures_prefix (texture_path nm) =
     dropWhile is_sep (normalized nm @ ''.wal'')"
proof -
  have "texture_path nm = ''textures'' @ CHR ''/'' # (normalized nm @ ''.wal'')"
    by (simp add: texture_path_def)
  then show ?thesis
    unfolding strip_textures_prefix by (simp add: is_sep_def)
qed


section \<open>The shape of an analysis\<close>

lemma readInt32LE_ok:
  assumes "0 \<le> off" and "off + 4 \<le> int (length buf)"
  shows "\<exists>x. readInt32LE buf off = Inr x"
  using assms by (simp add: readInt32LE_def buf_at_def)

lemma lumps_loop_acc:
  "lumps_loop buf n off errs lumps =
     (case lumps_loop buf n off [] [] of
        Inl e \<Rightarrow> Inl e
      | Inr (es, ls) \<Rightarrow> Inr (errs @ es, lumps @ ls))"
proof (induction n arbitrary: off errs lumps)
  case 0
  show ?case by simp
next
  case (Suc n)
  show ?case
  proof (cases "off + 8 > int (length buf)")
    case True
    then show ?thesis by simp
  next
    case False
    show ?thesis
    proof (cases "readInt32LE buf off")
      case (Inl e)
      with False show ?thesis by simp
    next
      case lo: (Inr lo)
      show ?thesis
      proof (cases "readInt32LE buf (off + 4)")
        case (Inl e)
        with False lo show ?thesis by simp
      next
        case ll: (Inr ll)
        let ?l = "\<lparr>lump_offset = lo, lump_length = ll\<rparr>"
        have a: "lumps_loop buf (Suc n) off errs lumps = lumps_loop buf n (off + 8) errs (lumps @ [?l])"
          and b: "lumps_loop buf (Suc n) off [] [] = lumps_loop buf n (off + 8) [] [?l]"
          using False lo ll by simp_all
        show ?thesis
          unfolding a b Suc.IH [of "off + 8" errs "lumps @ [?l]"] Suc.IH [of "off + 8" "[]" "[?l]"]
          by (simp split: sum.splits)
      qed
    qed
  qed
qed

lemma lumps_loop_shape:
  assumes "0 \<le> off"
  shows "\<exists>ls. lumps_loop buf n off [] [] =
           Inr (if 0 < n \<and> int (length buf) < off + 8 * int n then [LumpTableTruncated] else [], ls)
         \<and> length ls = min n (nat ((int (length buf) - off) div 8))"
  using assms
proof (induction n arbitrary: off)
  case 0
  show ?case by simp
next
  case (Suc n)
  show ?case
  proof (cases "off + 8 > int (length buf)")
    case True
    then have "(int (length buf) - off) div 8 \<le> 0" by simp
    with True show ?thesis by simp
  next
    case False
    with Suc.prems obtain lo ll where lo: "readInt32LE buf off = Inr lo"
      and ll: "readInt32LE buf (off + 4) = Inr ll"
      using readInt32LE_ok [of off buf] readInt32LE_ok [of "off + 4" buf] by auto
    let ?l = "\<lparr>lump_offset = lo, lump_length = ll\<rparr>"
    from Suc.prems have "0 \<le> off + 8" by simp
    from Suc.IH [OF this] obtain ls where
      ls: "lumps_loop buf n (off + 8) [] [] =
           Inr (if 0 < n \<and> int (length buf) < off + 8 + 8 * int n then [LumpTableTruncated] else [], ls)"
      and len: "length ls = min n (nat ((int (length buf) - (off + 8)) div 8))"
      by blast
    have "lumps_loop buf (Suc n) off [] [] = lumps_loop buf n (off + 8) [] [?l]"
      using False lo ll by simp
    also have "\<dots> = Inr (if 0 < n \<and> int (length buf) < off + 8 + 8 * int n
                         then [LumpTableTruncated] else [], ?l # ls)"
      unfolding lumps_loop_acc [of buf n "off + 8" "[]" "[?l]"] ls by simp
    finally have eq: "lumps_loop buf (Suc n) off [] [] =
        Inr (if 0 < n \<and> int (length buf) < off + 8 + 8 * int n then [LumpTableTruncated] else [],
             ?l # ls)" .
    have c: "(0 < n \<and> int (length buf) < off + 8 + 8 * int n) \<longleftrightarrow>
             (0 < Suc n \<and> int (length buf) < off + 8 * int (Suc n))"
      using False by auto
    have "nat ((int (length buf) - off) div 8) = Suc (nat ((int (length buf) - (off + 8)) div 8))"
      using False by (simp add: nat_add_distrib [symmetric] Suc_nat_eq_nat_zadd1) 
    with len have l: "length (?l # ls) = min (Suc n) (nat ((int (length buf) - off) div 8))"
      by simp
    show ?thesis
      unfolding eq c using l by blast
  qed
qed

subsection \<open>Where \<^verbatim>\<open>toString\<close> cannot throw\<close>

lemma toString_range_le: "toString_range buf st fin \<le> int (length buf)"
  by (auto simp: toString_range_def Let_def)

lemma toString_ascii_ok:
  "int (length buf) \<le> MAX_STRING_LENGTH \<Longrightarrow>
   toString_ascii buf st fin = Inr (buf_toString buf st fin)"
  using toString_range_le [of buf st fin] by (simp add: toString_ascii_def)


lemma toString_ascii_Inr:
  "toString_ascii buf st fin = Inr t \<Longrightarrow> t = buf_toString buf st fin"
  by (auto simp: toString_ascii_def split: if_splits)

lemma toString_ascii_magic: "toString_ascii buf 0 4 = Inr (buf_toString buf 0 4)"
  by (simp add: toString_ascii_def toString_range_def MAX_STRING_LENGTH_def Let_def)

lemma cstring_end_bounds: "i \<le> cstring_end buf i fin \<and> cstring_end buf i fin \<le> max i fin"
proof (induction buf i fin rule: cstring_end.induct)
  case (1 buf i fin)
  show ?case
  proof (cases "i < fin \<and> buf_at buf i \<noteq> Some 0")
    case True
    then have "cstring_end buf i fin = cstring_end buf (i + 1) fin"
      by (simp add: cstring_end.simps [of buf i fin])
    with "1.IH" True show ?thesis by auto
  next
    case False
    then have "cstring_end buf i fin = i"
      by (auto simp: cstring_end.simps [of buf i fin])
    then show ?thesis by simp
  qed
qed

lemma toString_ascii_cstring:
  assumes "maxLen \<le> MAX_STRING_LENGTH"
  shows "toString_ascii buf st (cstring_end buf st (min (st + maxLen) (int (length buf)))) =
         Inr (buf_toString buf st
                (cstring_end buf st (min (st + maxLen) (int (length buf)))))"
proof -
  let ?i = "cstring_end buf st (min (st + maxLen) (int (length buf)))"
  from cstring_end_bounds [of st buf "min (st + maxLen) (int (length buf))"]
  have "st \<le> ?i" and "?i \<le> max st (st + maxLen)" by auto
  then have "toString_range buf st ?i \<le> max 0 maxLen"
    by (auto simp: toString_range_def Let_def)
  with assms have "toString_range buf st ?i \<le> MAX_STRING_LENGTH"
    by (simp add: MAX_STRING_LENGTH_def)
  then show ?thesis by (simp add: toString_ascii_def)
qed

subsection \<open>The two blocks\<close>

lemma entities_block_acc:
  "entities_block buf lumps out warns =
     (case entities_block buf lumps out [] of
        Inl e \<Rightarrow> Inl e
      | Inr (out1, w) \<Rightarrow> Inr (out1, warns @ w))"
  by (simp add: entities_block_def lump_guard_def Let_def split: option.splits sum.splits)

lemma entities_block_Inr:
  "entities_block buf lumps out [] = Inr (out1, w) \<Longrightarrow>
   w = (if lump_guard buf (lumps_at lumps LUMP_ENTITIES) then [] else [EntitiesLumpMissing])"
  by (auto simp: entities_block_def lump_guard_def Let_def
      split: option.splits sum.splits if_splits)



lemma texinfo_block_warns:
  "snd (texinfo_block buf lumps warns) =
     warns @ (if lump_guard buf (lumps_at lumps LUMP_TEXINFO) then [] else [TexinfoLumpMissing])"
  by (simp add: texinfo_block_def lump_guard_def Let_def split: option.splits)

lemma texinfo_block_texs:
  "fst (texinfo_block buf lumps warns) = fst (texinfo_block buf lumps [])"
  by (simp add: texinfo_block_def lump_guard_def Let_def split: option.splits)

text \<open>
  With a header of eight bytes the analysis passes the header and the lump table; it
  throws only where the ENTITIES block does, and each field of its result is given by the
  header, the lump table and the two blocks.
\<close>

lemma analyze_shape:
  assumes "8 \<le> length buf"
  obtains ver lumps where
    "readInt32LE buf 4 = Inr ver"
    "lumps_loop buf 19 8 [] [] =
       Inr (if length buf < 160 then [LumpTableTruncated] else [], lumps)"
    "length lumps = min 19 (nat ((int (length buf) - 8) div 8))"
    "analyzeBspBuffer buf =
       (case entities_block buf lumps empty_out [] of
          Inl e \<Rightarrow> Inl e
        | Inr (out1, w) \<Rightarrow>
            Inr \<lparr>errors =
                 (if buf_toString buf 0 4 \<noteq> Q2_MAGIC
                  then [BadSignature Q2_MAGIC (buf_toString buf 0 4)] else [])
                 @ (if length buf < 160 then [LumpTableTruncated] else []),
               warnings =
                 (if ver \<noteq> Q2_VERSION then [VersionMismatch ver Q2_VERSION] else [])
                 @ (if lump_guard buf (lumps_at lumps LUMP_ENTITIES) then []
                    else [EntitiesLumpMissing])
                 @ (if lump_guard buf (lumps_at lumps LUMP_TEXINFO) then []
                    else [TexinfoLumpMissing]),
               mapName = or_null (name (out_worldInfo out1)),
               mapVersion = or_null (version (out_worldInfo out1)),
               textures = sort (fst (texinfo_block buf lumps [])),
               skies = sort (out_skies out1),
               sounds = sort (out_sounds out1),
               models = sort (out_models out1),
               others = sort (out_others out1),
               entityStats = out_entityStats out1\<rparr>)"
proof -
  from assms obtain ver where ver: "readInt32LE buf 4 = Inr ver"
    using readInt32LE_ok [of 4 buf] by auto
  from lumps_loop_shape [of 8 buf 19] obtain lumps where
    ll: "lumps_loop buf 19 8 [] [] =
       Inr (if length buf < 160 then [LumpTableTruncated] else [], lumps)"
    and len: "length lumps = min 19 (nat ((int (length buf) - 8) div 8))"
    by auto
  let ?e0 = "if buf_toString buf 0 4 \<noteq> Q2_MAGIC
               then [BadSignature Q2_MAGIC (buf_toString buf 0 4)] else []"
  let ?w0 = "if ver \<noteq> Q2_VERSION then [VersionMismatch ver Q2_VERSION] else []"
  have acc: "lumps_loop buf 19 8 ?e0 [] =
      Inr (?e0 @ (if length buf < 160 then [LumpTableTruncated] else []), lumps)"
    unfolding lumps_loop_acc [of buf 19 8 ?e0 "[]"] ll by simp
  have "analyzeBspBuffer buf =
       (case entities_block buf lumps empty_out [] of
          Inl e \<Rightarrow> Inl e
        | Inr (out1, w) \<Rightarrow>
            Inr \<lparr>errors =
                 (if buf_toString buf 0 4 \<noteq> Q2_MAGIC
                  then [BadSignature Q2_MAGIC (buf_toString buf 0 4)] else [])
                 @ (if length buf < 160 then [LumpTableTruncated] else []),
               warnings =
                 (if ver \<noteq> Q2_VERSION then [VersionMismatch ver Q2_VERSION] else [])
                 @ (if lump_guard buf (lumps_at lumps LUMP_ENTITIES) then []
                    else [EntitiesLumpMissing])
                 @ (if lump_guard buf (lumps_at lumps LUMP_TEXINFO) then []
                    else [TexinfoLumpMissing]),
               mapName = or_null (name (out_worldInfo out1)),
               mapVersion = or_null (version (out_worldInfo out1)),
               textures = sort (fst (texinfo_block buf lumps [])),
               skies = sort (out_skies out1),
               sounds = sort (out_sounds out1),
               models = sort (out_models out1),
               others = sort (out_others out1),
               entityStats = out_entityStats out1\<rparr>)"
  proof (cases "entities_block buf lumps empty_out []")
    case (Inl e)
    then have "entities_block buf lumps empty_out ?w0 = Inl e"
      unfolding entities_block_acc [of buf lumps empty_out ?w0] by simp
    with Inl assms show ?thesis
      unfolding analyzeBspBuffer_def Let_def ver sum.case acc prod.case by simp
  next
    case (Inr p)
    obtain out1 w where p: "p = (out1, w)" by (cases p)
    from Inr p have w: "w = (if lump_guard buf (lumps_at lumps LUMP_ENTITIES) then []
                             else [EntitiesLumpMissing])"
      by (simp add: entities_block_Inr)
    from Inr p have eb: "entities_block buf lumps empty_out ?w0 = Inr (out1, ?w0 @ w)"
      unfolding entities_block_acc [of buf lumps empty_out ?w0] by simp
    obtain texs w2 where tb: "texinfo_block buf lumps (?w0 @ w) = (texs, w2)"
      by (cases "texinfo_block buf lumps (?w0 @ w)")
    from tb have texs: "texs = fst (texinfo_block buf lumps [])"
      and w2: "w2 = (?w0 @ w) @ (if lump_guard buf (lumps_at lumps LUMP_TEXINFO) then []
                                  else [TexinfoLumpMissing])"
      using texinfo_block_texs [of buf lumps "?w0 @ w"]
        texinfo_block_warns [of buf lumps "?w0 @ w"] by simp_all
    have "analyzeBspBuffer buf =
       Inr \<lparr>errors = ?e0 @ (if length buf < 160 then [LumpTableTruncated] else []),
            warnings = w2,
            mapName = or_null (name (out_worldInfo out1)),
            mapVersion = or_null (version (out_worldInfo out1)),
            textures = sort texs,
            skies = sort (out_skies out1),
            sounds = sort (out_sounds out1),
            models = sort (out_models out1),
            others = sort (out_others out1),
            entityStats = out_entityStats out1\<rparr>"
      using assms unfolding analyzeBspBuffer_def Let_def ver sum.case acc prod.case eb tb
      by simp
    then show ?thesis
      unfolding Inr p w2 w texs by simp
  qed
  with ver ll len show thesis by (rule that)
qed

lemma lumps_loop_nth:
  "lumps_loop buf n off [] [] = Inr (es, ls) \<Longrightarrow> j < length ls \<Longrightarrow>
   readInt32LE buf (off + 8 * int j) = Inr (lump_offset (ls ! j))
   \<and> readInt32LE buf (off + 8 * int j + 4) = Inr (lump_length (ls ! j))"
proof (induction n arbitrary: off es ls j)
  case 0
  then show ?case by simp
next
  case (Suc n)
  show ?case
  proof (cases "off + 8 > int (length buf)")
    case True
    with Suc.prems show ?thesis by simp
  next
    case False
    from Suc.prems(1) False obtain lo ll where lo: "readInt32LE buf off = Inr lo"
      and ll: "readInt32LE buf (off + 4) = Inr ll"
      by (auto split: sum.splits)
    let ?l = "\<lparr>lump_offset = lo, lump_length = ll\<rparr>"
    from Suc.prems(1) False lo ll
    have "lumps_loop buf n (off + 8) [] [?l] = Inr (es, ls)" by simp
    then obtain ls' where rest: "lumps_loop buf n (off + 8) [] [] = Inr (es, ls')"
      and ls: "ls = ?l # ls'"
      unfolding lumps_loop_acc [of buf n "off + 8" "[]" "[?l]"]
      by (auto split: sum.splits)
    show ?thesis
    proof (cases j)
      case 0
      with lo ll ls show ?thesis by simp
    next
      case (Suc j')
      with Suc.prems(2) ls have "j' < length ls'" by simp
      from Suc.IH [OF rest this] Suc ls show ?thesis
        by (simp add: algebra_simps)
    qed
  qed
qed

text \<open>The entries of the ENTITIES and TEXINFO lumps, from the four numbers read.\<close>

lemma header_lumps:
  assumes ll: "lumps_loop buf 19 8 [] [] = Inr (es, lumps)"
    and n: "length lumps = min 19 (nat ((int (length buf) - 8) div 8))"
    and len: "56 \<le> length buf"
    and eo: "readInt32LE buf 8 = Inr eo" and el: "readInt32LE buf 12 = Inr el"
    and xo: "readInt32LE buf 48 = Inr xo" and xl: "readInt32LE buf 52 = Inr xl"
  shows "lumps_at lumps LUMP_ENTITIES = Some \<lparr>lump_offset = eo, lump_length = el\<rparr>"
    and "lumps_at lumps LUMP_TEXINFO = Some \<lparr>lump_offset = xo, lump_length = xl\<rparr>"
proof -
  from len have "6 \<le> (int (length buf) - 8) div 8" by simp
  with n have six: "6 \<le> length lumps" by simp
  from six have i0: "0 < length lumps" and i5: "5 < length lumps" by auto
  note nth0 = lumps_loop_nth [OF ll i0] and nth5 = lumps_loop_nth [OF ll i5]
  from nth0 eo el
  have "lump_offset (lumps ! 0) = eo" "lump_length (lumps ! 0) = el" by simp_all
  then have l0: "lumps ! 0 = \<lparr>lump_offset = eo, lump_length = el\<rparr>" by simp
  from nth5 xo xl
  have "lump_offset (lumps ! 5) = xo" "lump_length (lumps ! 5) = xl" by simp_all
  then have l5: "lumps ! 5 = \<lparr>lump_offset = xo, lump_length = xl\<rparr>" by simp
  from i0 l0 show "lumps_at lumps LUMP_ENTITIES = Some \<lparr>lump_offset = eo, lump_length = el\<rparr>"
    unfolding lumps_at_def LUMP_ENTITIES_def by (simp only: if_True)
  from i5 l5 show "lumps_at lumps LUMP_TEXINFO = Some \<lparr>lump_offset = xo, lump_length = xl\<rparr>"
    unfolding lumps_at_def LUMP_TEXINFO_def by (simp only: if_True)
qed

text \<open>
  The analysis of a buffer that holds the first six lump entries, from the five numbers
  of the header it uses.
\<close>

lemma analyze_eval:
  assumes len: "56 \<le> length buf"
    and ver: "readInt32LE buf 4 = Inr ver"
    and eo: "readInt32LE buf 8 = Inr eo" and el: "readInt32LE buf 12 = Inr el"
    and xo: "readInt32LE buf 48 = Inr xo" and xl: "readInt32LE buf 52 = Inr xl"
    and texs: "texs =
      (if 0 < xl \<and> xo + xl \<le> int (length buf)
       then fold (texinfo_round buf \<lparr>lump_offset = xo, lump_length = xl\<rparr>)
              [0..<nat (xl div DTEXINFO_SIZE)] []
       else [])"
  shows "analyzeBspBuffer buf =
       (case (if 0 < el \<and> eo + el \<le> int (length buf)
              then (case toString_ascii buf eo (eo + el) of
                      Inl e \<Rightarrow> Inl e
                    | Inr entsTxt \<Rightarrow> Inr (extractFromEntities entsTxt empty_out))
              else Inr empty_out) of
          Inl e \<Rightarrow> Inl e
        | Inr out1 \<Rightarrow>
            Inr \<lparr>errors =
                 (if buf_toString buf 0 4 \<noteq> Q2_MAGIC
                  then [BadSignature Q2_MAGIC (buf_toString buf 0 4)] else [])
                 @ (if length buf < 160 then [LumpTableTruncated] else []),
               warnings =
                 (if ver \<noteq> Q2_VERSION then [VersionMismatch ver Q2_VERSION] else [])
                 @ (if 0 < el \<and> eo + el \<le> int (length buf) then []
                    else [EntitiesLumpMissing])
                 @ (if 0 < xl \<and> xo + xl \<le> int (length buf) then []
                    else [TexinfoLumpMissing]),
               mapName = or_null (name (out_worldInfo out1)),
               mapVersion = or_null (version (out_worldInfo out1)),
               textures = sort texs,
               skies = sort (out_skies out1),
               sounds = sort (out_sounds out1),
               models = sort (out_models out1),
               others = sort (out_others out1),
               entityStats = out_entityStats out1\<rparr>)"
proof -
  from len have "8 \<le> length buf" by simp
  then obtain ver' lumps where ver': "readInt32LE buf 4 = Inr ver'"
    and ll: "lumps_loop buf 19 8 [] [] =
       Inr (if length buf < 160 then [LumpTableTruncated] else [], lumps)"
    and n: "length lumps = min 19 (nat ((int (length buf) - 8) div 8))"
    and res: "analyzeBspBuffer buf =
       (case entities_block buf lumps empty_out [] of
          Inl e \<Rightarrow> Inl e
        | Inr (out1, w) \<Rightarrow>
            Inr \<lparr>errors =
                 (if buf_toString buf 0 4 \<noteq> Q2_MAGIC
                  then [BadSignature Q2_MAGIC (buf_toString buf 0 4)] else [])
                 @ (if length buf < 160 then [LumpTableTruncated] else []),
               warnings =
                 (if ver' \<noteq> Q2_VERSION then [VersionMismatch ver' Q2_VERSION] else [])
                 @ (if lump_guard buf (lumps_at lumps LUMP_ENTITIES) then []
                    else [EntitiesLumpMissing])
                 @ (if lump_guard buf (lumps_at lumps LUMP_TEXINFO) then []
                    else [TexinfoLumpMissing]),
               mapName = or_null (name (out_worldInfo out1)),
               mapVersion = or_null (version (out_worldInfo out1)),
               textures = sort (fst (texinfo_block buf lumps [])),
               skies = sort (out_skies out1),
               sounds = sort (out_sounds out1),
               models = sort (out_models out1),
               others = sort (out_others out1),
               entityStats = out_entityStats out1\<rparr>)"
    by (rule analyze_shape)
  from ver ver' have v: "ver' = ver" by simp
  note e = header_lumps(1) [OF ll n len eo el xo xl]
    and x = header_lumps(2) [OF ll n len eo el xo xl]
  have eb: "entities_block buf lumps empty_out [] =
      (case (if 0 < el \<and> eo + el \<le> int (length buf)
              then (case toString_ascii buf eo (eo + el) of
                      Inl e \<Rightarrow> Inl e
                    | Inr entsTxt \<Rightarrow> Inr (extractFromEntities entsTxt empty_out))
              else Inr empty_out) of
         Inl e \<Rightarrow> Inl e
       | Inr out1 \<Rightarrow>
           Inr (out1, if 0 < el \<and> eo + el \<le> int (length buf) then []
                      else [EntitiesLumpMissing]))"
    unfolding entities_block_def e by (simp add: lump_guard_def split: sum.splits)
  have tb: "fst (texinfo_block buf lumps []) = texs"
    unfolding texs texinfo_block_def x by (simp add: lump_guard_def)
  show ?thesis
    unfolding res v eb tb e x by (simp add: lump_guard_def split: sum.splits)
qed



section \<open>Evaluation of the sample buffers\<close>

lemma ascii_table:
  "ascii_char 0x00 = CHR 0x00"
  "ascii_char 0x0A = CHR 0x0A"
  "ascii_char 0x20 = CHR 0x20"
  "ascii_char 0x22 = CHR 0x22"
  "ascii_char 0x26 = CHR 0x26"
  "ascii_char 0x2E = CHR 0x2E"
  "ascii_char 0x2F = CHR 0x2F"
  "ascii_char 0x30 = CHR 0x30"
  "ascii_char 0x31 = CHR 0x31"
  "ascii_char 0x42 = CHR 0x42"
  "ascii_char 0x46 = CHR 0x46"
  "ascii_char 0x49 = CHR 0x49"
  "ascii_char 0x4C = CHR 0x4C"
  "ascii_char 0x50 = CHR 0x50"
  "ascii_char 0x53 = CHR 0x53"
  "ascii_char 0x58 = CHR 0x58"
  "ascii_char 0x5C = CHR 0x5C"
  "ascii_char 0x5F = CHR 0x5F"
  "ascii_char 0x61 = CHR 0x61"
  "ascii_char 0x62 = CHR 0x62"
  "ascii_char 0x63 = CHR 0x63"
  "ascii_char 0x64 = CHR 0x64"
  "ascii_char 0x65 = CHR 0x65"
  "ascii_char 0x66 = CHR 0x66"
  "ascii_char 0x67 = CHR 0x67"
  "ascii_char 0x68 = CHR 0x68"
  "ascii_char 0x69 = CHR 0x69"
  "ascii_char 0x6B = CHR 0x6B"
  "ascii_char 0x6C = CHR 0x6C"
  "ascii_char 0x6D = CHR 0x6D"
  "ascii_char 0x6E = CHR 0x6E"
  "ascii_char 0x6F = CHR 0x6F"
  "ascii_char 0x70 = CHR 0x70"
  "ascii_char 0x72 = CHR 0x72"
  "ascii_char 0x73 = CHR 0x73"
  "ascii_char 0x74 = CHR 0x74"
  "ascii_char 0x75 = CHR 0x75"
  "ascii_char 0x76 = CHR 0x76"
  "ascii_char 0x77 = CHR 0x77"
  "ascii_char 0x78 = CHR 0x78"
  "ascii_char 0x79 = CHR 0x79"
  "ascii_char 0x7B = CHR 0x7B"
  "ascii_char 0x7D = CHR 0x7D"
  "ascii_char 0xAB = CHR 0x2B"
  "ascii_char 0xC2 = CHR 0x42"
  "ascii_char 0xC9 = CHR 0x49"
  "ascii_char 0xD0 = CHR 0x50"
  "ascii_char 0xD3 = CHR 0x53"
  "ascii_char 0xD8 = CHR 0x58"
  "ascii_char 0xFF = CHR 0x7F"
  by (simp_all add: ascii_char_def char_of_eq_iff)

lemmas buffer_eval =
  readInt32LE_def buf_at_def buf_toString_def readCString_def cstring_end.simps
  js_trim_def remove_nuls_def is_space_def ascii_table

lemma upt_3: "[0..<3] = [0, 1, 2]" and upt_1: "[0..<1] = [0]"
  by (simp_all add: upt_rec numeral_eq_Suc)

lemma texture_path_samples:
  "texture_path ''e1u1/wall01'' = ''textures/e1u1/wall01.wal''"
  "texture_path ''textures//wall'' = ''textures/wall.wal''"
  "texture_path ''e1u1/floor'' = ''textures/e1u1/floor.wal''"
  "texture_path ''IBSP&'' = ''textures/IBSP&.wal''"
  by code_simp+

lemma wall_buf_reads:
  "length wall_buf = 236"
  "buf_toString wall_buf 0 4 = ''IBSP''"
  "readInt32LE wall_buf 4 = Inr 38"
  "readInt32LE wall_buf 8 = Inr 0"
  "readInt32LE wall_buf 12 = Inr 0"
  "readInt32LE wall_buf 48 = Inr 160"
  "readInt32LE wall_buf 52 = Inr 76"
  "readCString wall_buf 200 32 = ''e1u1/wall01''"
  by (simp_all add: wall_buf_def buffer_eval)

lemma wall_buf_analysis:
  "analyzeBspBuffer wall_buf =
     Inr \<lparr>errors = [], warnings = [EntitiesLumpMissing], mapName = None, mapVersion = None,
          textures = [''textures/e1u1/wall01.wal''], skies = [], sounds = [], models = [],
          others = [], entityStats = createEmptyEntityStats\<rparr>"
proof -
  have t: "fold (texinfo_round wall_buf \<lparr>lump_offset = 160, lump_length = 76\<rparr>)
             [0..<nat (76 div DTEXINFO_SIZE)] [] = [''textures/e1u1/wall01.wal'']"
    by (simp add: DTEXINFO_SIZE_def upt_1 texinfo_round_def wall_buf_reads
        texture_path_samples Set_add_def)
  have "56 \<le> length wall_buf" by (simp add: wall_buf_reads)
  from analyze_eval [OF this wall_buf_reads(3-7) refl] show ?thesis
    by (simp add: wall_buf_reads t Q2_MAGIC_def Q2_VERSION_def empty_out_def or_null_def
        falsy_def)
qed

lemma mixed_buf_reads:
  "length mixed_buf = 523"
  "buf_toString mixed_buf 0 4 = ''XXXX''"
  "readInt32LE mixed_buf 4 = Inr 37"
  "readInt32LE mixed_buf 8 = Inr 160"
  "readInt32LE mixed_buf 12 = Inr 135"
  "readInt32LE mixed_buf 48 = Inr 295"
  "readInt32LE mixed_buf 52 = Inr 228"
  "buf_toString mixed_buf 160 295 = mixed_text"
  "readCString mixed_buf 335 32 = ''textures//wall''"
  "readCString mixed_buf 411 32 = ''e1u1/floor''"
  "readCString mixed_buf 487 32 = ''textures//wall''"
  by (simp_all add: mixed_buf_def mixed_text_def buffer_eval)

lemma mixed_pairs:
  "pairs_loop mixed_text 0 =
     [(''sky'', ''unit1_''), (''message'', ''Frag Pit''), (''noise'', ''world/b.wav''),
      (''noise'', [CHR ''w'', CHR ''o'', CHR ''r'', CHR ''l'', CHR ''d'', CHR 0x5C,
                   CHR ''a'', CHR ''.'', CHR ''w'', CHR ''a'', CHR ''v'']),
      (''noise'', ''world/b.wav''), (''classname'', ''weapon_shotgun'')]"
  by code_simp

lemma mixed_tests:
  "\<not> rx_test re_sound_key ''message''"
  "\<not> rx_test re_other_key ''message''"
  "\<not> rx_test re_sound_key ''classname''"
  "\<not> rx_test re_other_key ''classname''"
  "rx_test re_sound_ext ''world/a.wav''"
  "rx_test re_sound_ext ''world/b.wav''"
  by code_simp+

lemma sort_samples:
  "sort [''textures/wall.wal'', ''textures/e1u1/floor.wal''] =
     [''textures/e1u1/floor.wal'', ''textures/wall.wal'']"
  "sort [''world/b.wav'', ''world/a.wav''] = [''world/a.wav'', ''world/b.wav'']"
  by code_simp+

lemma mixed_extract:
  "extractFromEntities mixed_text empty_out =
     \<lparr>out_skies = [''env/unit1_*''], out_sounds = [''world/b.wav'', ''world/a.wav''],
      out_models = [], out_others = [],
      out_entityStats = createEmptyEntityStats\<lparr>weapons := [''weapon_shotgun'' \<mapsto> 1]\<rparr>,
      out_worldInfo = \<lparr>name = Some ''Frag Pit'', version = None\<rparr>\<rparr>"
  by (simp add: extractFromEntities_def mixed_pairs process_pair_def note_name_def
      note_version_def count_classname_def add_resource_def mixed_tests lower_samples
      classifyClassname_def inc_key_def replace_backslashes_def slash_char_def Set_add_def
      falsy_def empty_out_def createEmptyEntityStats_def)

lemma mixed_buf_analysis:
  "analyzeBspBuffer mixed_buf =
     Inr \<lparr>errors = [BadSignature ''IBSP'' ''XXXX''], warnings = [VersionMismatch 37 38],
          mapName = Some ''Frag Pit'', mapVersion = None,
          textures = [''textures/e1u1/floor.wal'', ''textures/wall.wal''],
          skies = [''env/unit1_*''], sounds = [''world/a.wav'', ''world/b.wav''],
          models = [], others = [],
          entityStats = createEmptyEntityStats\<lparr>weapons := [''weapon_shotgun'' \<mapsto> 1]\<rparr>\<rparr>"
proof -
  have t: "fold (texinfo_round mixed_buf \<lparr>lump_offset = 295, lump_length = 228\<rparr>)
             [0..<nat (228 div DTEXINFO_SIZE)] [] =
           [''textures/wall.wal'', ''textures/e1u1/floor.wal'']"
    by (simp add: DTEXINFO_SIZE_def upt_3 texinfo_round_def mixed_buf_reads
        texture_path_samples Set_add_def)
  have s: "toString_ascii mixed_buf 160 295 = Inr mixed_text"
    by (simp add: toString_ascii_ok MAX_STRING_LENGTH_def mixed_buf_reads)
  have "56 \<le> length mixed_buf" by (simp add: mixed_buf_reads)
  from analyze_eval [OF this mixed_buf_reads(3-7) refl] show ?thesis
    by (simp add: mixed_buf_reads s t mixed_extract sort_samples Q2_MAGIC_def Q2_VERSION_def
        or_null_def falsy_def)
qed

lemma neg_buf_reads:
  "length neg_buf = 170"
  "buf_toString neg_buf 0 4 = ''IBSP''"
  "readInt32LE neg_buf 4 = Inr 38"
  "readInt32LE neg_buf 8 = Inr (- 1)"
  "readInt32LE neg_buf 12 = Inr 171"
  "readInt32LE neg_buf 48 = Inr (- 40)"
  "readInt32LE neg_buf 52 = Inr 76"
  "readCString neg_buf 0 32 = ''IBSP&''"
  by (simp_all add: neg_buf_def buffer_eval)

lemma neg_pairs: "pairs_loop (buf_toString neg_buf (- 1) 170) 0 = [(''sky'', ''u1'')]"
  by (simp add: neg_buf_def buffer_eval, code_simp)

lemma neg_buf_analysis:
  "analyzeBspBuffer neg_buf =
     Inr \<lparr>errors = [], warnings = [], mapName = None, mapVersion = None,
          textures = [''textures/IBSP&.wal''], skies = [''env/u1*''], sounds = [],
          models = [], others = [], entityStats = createEmptyEntityStats\<rparr>"
proof -
  have t: "fold (texinfo_round neg_buf \<lparr>lump_offset = - 40, lump_length = 76\<rparr>)
             [0..<nat (76 div DTEXINFO_SIZE)] [] = [''textures/IBSP&.wal'']"
    by (simp add: DTEXINFO_SIZE_def upt_1 texinfo_round_def neg_buf_reads
        texture_path_samples Set_add_def)
  have e: "extractFromEntities (buf_toString neg_buf (- 1) 170) empty_out =
      \<lparr>out_skies = [''env/u1*''], out_sounds = [], out_models = [], out_others = [],
       out_entityStats = createEmptyEntityStats,
       out_worldInfo = \<lparr>name = None, version = None\<rparr>\<rparr>"
    by (simp add: extractFromEntities_def neg_pairs process_pair_def note_name_def
        note_version_def count_classname_def add_resource_def replace_backslashes_def
        slash_char_def Set_add_def empty_out_def)
  have s: "toString_ascii neg_buf (- 1) 170 = Inr (buf_toString neg_buf (- 1) 170)"
    by (simp add: toString_ascii_ok MAX_STRING_LENGTH_def neg_buf_reads)
  have "56 \<le> length neg_buf" by (simp add: neg_buf_reads)
  from analyze_eval [OF this neg_buf_reads(3-7) refl] show ?thesis
    by (simp add: neg_buf_reads s t e Q2_MAGIC_def Q2_VERSION_def or_null_def falsy_def)
qed







section \<open>When the analysis throws\<close>





section \<open>The textures of an analysis\<close>

lemma set_Set_add: "set (Set_add x xs) = insert x (set xs)"
  by (auto simp: Set_add_def)

lemma texinfo_round_name:
  "texinfo_round buf l i texs =
     (if readCString buf (lump_offset l + int i * 76 + 40) 32 = [] then texs
      else Set_add (texture_path (readCString buf (lump_offset l + int i * 76 + 40) 32)) texs)"
proof -
  have "lump_offset l + int i * 76 + 32 + 4 + 4 = lump_offset l + int i * 76 + 40" by simp
  then show ?thesis
    unfolding texinfo_round_def DTEXINFO_SIZE_def Let_def by (simp only:) auto
qed

lemma set_fold_texinfo_round:
  "set (fold (texinfo_round buf l) js texs) =
     set texs \<union> texture_path `
       ({readCString buf (lump_offset l + int i * 76 + 40) 32 | i. i \<in> set js} - {[]})"
proof (induction js arbitrary: texs)
  case Nil
  show ?case by simp
next
  case (Cons j js)
  have step: "set (texinfo_round buf l j texs) =
      set texs \<union> texture_path ` ({readCString buf (lump_offset l + int j * 76 + 40) 32} - {[]})"
    by (auto simp: texinfo_round_name set_Set_add)
  show ?case
    unfolding fold_Cons comp_apply Cons.IH step by auto
qed

lemma readInt32LE_Inr_length:
  "readInt32LE buf off = Inr x \<Longrightarrow> 0 \<le> off \<and> off + 4 \<le> int (length buf)"
  by (auto simp: readInt32LE_def buf_at_def split: if_splits)

lemma analysis_textures:
  assumes xo: "readInt32LE buf 48 = Inr xo" and xl: "readInt32LE buf 52 = Inr xl"
    and ok: "0 < xl" "xo + xl \<le> int (length buf)"
    and r: "analyzeBspBuffer buf = Inr r"
  shows "set (textures r) =
     texture_path ` ({readCString buf (xo + int i * 76 + 40) 32 | i. i < nat (xl div 76)} - {[]})"
proof -
  from readInt32LE_Inr_length [OF xl] have len: "56 \<le> length buf" by simp
  then obtain ver eo el where ver: "readInt32LE buf 4 = Inr ver"
    and eo: "readInt32LE buf 8 = Inr eo" and el: "readInt32LE buf 12 = Inr el"
    using readInt32LE_ok [of 4 buf] readInt32LE_ok [of 8 buf] readInt32LE_ok [of 12 buf]
    by auto
  from analyze_eval [OF len ver eo el xo xl refl] r ok
  have "textures r =
      sort (fold (texinfo_round buf \<lparr>lump_offset = xo, lump_length = xl\<rparr>)
              [0..<nat (xl div DTEXINFO_SIZE)] [])"
    by (auto split: sum.splits if_splits)
  then show ?thesis
    by (simp add: set_fold_texinfo_round DTEXINFO_SIZE_def)
qed

lemma spec_texture_path_sample: "spec_texture_path ''textures//wall'' = ''textures//wall.wal''"
  by code_simp

text \<open>
  C2, as amended. The texture of a name is \<^verbatim>\<open>textures/\<close>, then the name without a
  leading \<^verbatim>\<open>textures\<close> (in any case) and the whole run of slashes and backslashes after it
  (at least one), with every backslash turned into a slash, then \<^verbatim>\<open>.wal\<close>, whatever
  extension the name has. The textures of an analysis whose TEXINFO lump passes the guard
  are these paths of the non-empty names of its records. A TEXINFO lump of length 76 whose
  record holds \<^verbatim>\<open>e1u1/wall01\<close> gives exactly \<^verbatim>\<open>textures/e1u1/wall01.wal\<close>.
\<close>

theorem texture_output_rule:
  "texture_path nm =
     ''textures/''
     @ replace_backslashes
         (if map canon_char (take 8 nm) = map canon_char ''textures''
             \<and> takeWhile is_sep (drop 8 nm) \<noteq> []
          then dropWhile is_sep (drop 8 nm) else nm)
     @ ''.wal''
   \<and> (readInt32LE buf 48 = Inr xo \<longrightarrow> readInt32LE buf 52 = Inr xl \<longrightarrow>
        0 < xl \<longrightarrow> xo + xl \<le> int (length buf) \<longrightarrow> analyzeBspBuffer buf = Inr r \<longrightarrow>
        set (textures r) =
          texture_path `
            ({readCString buf (xo + int i * 76 + 40) 32 | i. i < nat (xl div 76)} - {[]}))
   \<and> readInt32LE wall_buf 52 = Inr 76
   \<and> readCString wall_buf (160 + 40) 32 = ''e1u1/wall01''
   \<and> (\<exists>w. analyzeBspBuffer wall_buf = Inr w \<and> textures w = [''textures/e1u1/wall01.wal''])"
proof (intro conjI impI)
  show "texture_path nm =
     ''textures/''
     @ replace_backslashes
         (if map canon_char (take 8 nm) = map canon_char ''textures''
             \<and> takeWhile is_sep (drop 8 nm) \<noteq> []
          then dropWhile is_sep (drop 8 nm) else nm)
     @ ''.wal''"
    unfolding texture_path_def normalized_def strip_textures_prefix ..
  show "readInt32LE wall_buf 52 = Inr 76"
    by (rule wall_buf_reads)
  show "readCString wall_buf (160 + 40) 32 = ''e1u1/wall01''"
    by (simp add: wall_buf_reads)
  show "\<exists>w. analyzeBspBuffer wall_buf = Inr w \<and> textures w = [''textures/e1u1/wall01.wal'']"
    by (simp add: wall_buf_analysis)
next
  assume "readInt32LE buf 48 = Inr xo" "readInt32LE buf 52 = Inr xl" "0 < xl"
    "xo + xl \<le> int (length buf)" "analyzeBspBuffer buf = Inr r"
  then show "set (textures r) =
          texture_path `
            ({readCString buf (xo + int i * 76 + 40) 32 | i. i < nat (xl div 76)} - {[]})"
    by (rule analysis_textures)
qed

theorem texture_output_rule_witness:
  "readInt32LE mixed_buf 48 = Inr 295 \<and> readInt32LE mixed_buf 52 = Inr 228
   \<and> (0::int) < 228 \<and> 295 + 228 \<le> int (length mixed_buf)
   \<and> (\<exists>r. analyzeBspBuffer mixed_buf = Inr r
          \<and> set (textures r) = {''textures/wall.wal'', ''textures/e1u1/floor.wal''})"
  using texture_output_rule [of "''e1u1/floor''" mixed_buf 295 228, THEN conjunct2, THEN conjunct1]
    mixed_buf_analysis
  by (auto simp: mixed_buf_reads)

text \<open>
  The claim as stated fails for the record name \<^verbatim>\<open>textures//wall\<close> of \<open>mixed_buf\<close>: the
  code strips both slashes, the rule of the claim only one.
\<close>

theorem texture_output_rule_counterexample:
  "readCString mixed_buf 335 32 = ''textures//wall''
   \<and> texture_path ''textures//wall'' = ''textures/wall.wal''
   \<and> spec_texture_path ''textures//wall'' = ''textures//wall.wal''
   \<and> (\<exists>r. analyzeBspBuffer mixed_buf = Inr r
          \<and> ''textures/wall.wal'' \<in> set (textures r)
          \<and> ''textures//wall.wal'' \<notin> set (textures r))"
  by (simp add: mixed_buf_reads texture_path_samples spec_texture_path_sample
      mixed_buf_analysis)


section \<open>The lists of a result\<close>

subsection \<open>Sets stay sets\<close>

lemma distinct_Set_add: "distinct xs \<Longrightarrow> distinct (Set_add x xs)"
  by (simp add: Set_add_def)

text \<open>The four buckets of the object \<^verbatim>\<open>out\<close> hold no string twice.\<close>

definition buckets_distinct :: "Out \<Rightarrow> bool" where
  "buckets_distinct out \<longleftrightarrow>
     distinct (out_skies out) \<and> distinct (out_sounds out)
     \<and> distinct (out_models out) \<and> distinct (out_others out)"

lemma buckets_note_name: "buckets_distinct (note_name k v out) = buckets_distinct out"
  by (simp add: buckets_distinct_def note_name_def)

lemma buckets_note_version: "buckets_distinct (note_version k v out) = buckets_distinct out"
  by (simp add: buckets_distinct_def note_version_def)

lemma buckets_count_classname: "buckets_distinct (count_classname k v out) = buckets_distinct out"
  by (simp add: buckets_distinct_def count_classname_def)

lemma buckets_add_resource:
  "buckets_distinct out \<Longrightarrow> buckets_distinct (add_resource k vv out)"
  by (simp add: buckets_distinct_def add_resource_def distinct_Set_add)

lemma buckets_process_pair:
  "buckets_distinct out \<Longrightarrow> buckets_distinct (process_pair kv out)"
  by (cases kv)
    (simp add: process_pair_def buckets_add_resource buckets_count_classname
      buckets_note_version buckets_note_name)

lemma buckets_fold:
  "buckets_distinct out \<Longrightarrow> buckets_distinct (fold process_pair ps out)"
  by (induction ps arbitrary: out) (simp_all add: buckets_process_pair)

lemma buckets_entities_block:
  assumes "entities_block buf lumps empty_out warns = Inr (out1, w)"
  shows "buckets_distinct out1"
proof -
  have "buckets_distinct empty_out"
    by (simp add: buckets_distinct_def empty_out_def)
  with assms show ?thesis
    by (auto simp: entities_block_def Let_def extractFromEntities_def buckets_fold
        split: option.splits sum.splits if_splits)
qed

lemma distinct_texinfo_round: "distinct texs \<Longrightarrow> distinct (texinfo_round buf l i texs)"
  by (simp add: texinfo_round_def Let_def distinct_Set_add)

lemma distinct_fold_texinfo_round:
  "distinct texs \<Longrightarrow> distinct (fold (texinfo_round buf l) js texs)"
  by (induction js arbitrary: texs) (simp_all add: distinct_texinfo_round)

lemma distinct_texinfo_block: "distinct (fst (texinfo_block buf lumps warns))"
  by (simp add: texinfo_block_def Let_def distinct_fold_texinfo_round split: option.splits)

lemma analyze_Inr_length: "analyzeBspBuffer buf = Inr r \<Longrightarrow> 8 \<le> length buf"
  by (cases "length buf < 8") (simp_all add: analyzeBspBuffer_def)

text \<open>A result comes with the lump table and the outcome of the ENTITIES block it was made of.\<close>

lemma analyze_result:
  assumes "analyzeBspBuffer buf = Inr r"
  obtains ver lumps out1 w where
    "readInt32LE buf 4 = Inr ver"
    "lumps_loop buf 19 8 [] [] =
       Inr (if length buf < 160 then [LumpTableTruncated] else [], lumps)"
    "length lumps = min 19 (nat ((int (length buf) - 8) div 8))"
    "entities_block buf lumps empty_out [] = Inr (out1, w)"
    "r = \<lparr>errors =
                 (if buf_toString buf 0 4 \<noteq> Q2_MAGIC
                  then [BadSignature Q2_MAGIC (buf_toString buf 0 4)] else [])
                 @ (if length buf < 160 then [LumpTableTruncated] else []),
               warnings =
                 (if ver \<noteq> Q2_VERSION then [VersionMismatch ver Q2_VERSION] else [])
                 @ (if lump_guard buf (lumps_at lumps LUMP_ENTITIES) then []
                    else [EntitiesLumpMissing])
                 @ (if lump_guard buf (lumps_at lumps LUMP_TEXINFO) then []
                    else [TexinfoLumpMissing]),
               mapName = or_null (name (out_worldInfo out1)),
               mapVersion = or_null (version (out_worldInfo out1)),
               textures = sort (fst (texinfo_block buf lumps [])),
               skies = sort (out_skies out1),
               sounds = sort (out_sounds out1),
               models = sort (out_models out1),
               others = sort (out_others out1),
               entityStats = out_entityStats out1\<rparr>"
proof -
  from assms have "8 \<le> length buf" by (rule analyze_Inr_length)
  then obtain ver lumps where ver: "readInt32LE buf 4 = Inr ver"
    and ll: "lumps_loop buf 19 8 [] [] =
       Inr (if length buf < 160 then [LumpTableTruncated] else [], lumps)"
    and n: "length lumps = min 19 (nat ((int (length buf) - 8) div 8))"
    and res: "analyzeBspBuffer buf =
       (case entities_block buf lumps empty_out [] of
          Inl e \<Rightarrow> Inl e
        | Inr (out1, w) \<Rightarrow>
            Inr \<lparr>errors =
                 (if buf_toString buf 0 4 \<noteq> Q2_MAGIC
                  then [BadSignature Q2_MAGIC (buf_toString buf 0 4)] else [])
                 @ (if length buf < 160 then [LumpTableTruncated] else []),
               warnings =
                 (if ver \<noteq> Q2_VERSION then [VersionMismatch ver Q2_VERSION] else [])
                 @ (if lump_guard buf (lumps_at lumps LUMP_ENTITIES) then []
                    else [EntitiesLumpMissing])
                 @ (if lump_guard buf (lumps_at lumps LUMP_TEXINFO) then []
                    else [TexinfoLumpMissing]),
               mapName = or_null (name (out_worldInfo out1)),
               mapVersion = or_null (version (out_worldInfo out1)),
               textures = sort (fst (texinfo_block buf lumps [])),
               skies = sort (out_skies out1),
               sounds = sort (out_sounds out1),
               models = sort (out_models out1),
               others = sort (out_others out1),
               entityStats = out_entityStats out1\<rparr>)"
    by (rule analyze_shape)
  show thesis
  proof (cases "entities_block buf lumps empty_out []")
    case (Inl e)
    with res assms show ?thesis by simp
  next
    case (Inr p)
    obtain out1 w where p: "p = (out1, w)" by (cases p)
    from res assms have "r = \<lparr>errors =
                 (if buf_toString buf 0 4 \<noteq> Q2_MAGIC
                  then [BadSignature Q2_MAGIC (buf_toString buf 0 4)] else [])
                 @ (if length buf < 160 then [LumpTableTruncated] else []),
               warnings =
                 (if ver \<noteq> Q2_VERSION then [VersionMismatch ver Q2_VERSION] else [])
                 @ (if lump_guard buf (lumps_at lumps LUMP_ENTITIES) then []
                    else [EntitiesLumpMissing])
                 @ (if lump_guard buf (lumps_at lumps LUMP_TEXINFO) then []
                    else [TexinfoLumpMissing]),
               mapName = or_null (name (out_worldInfo out1)),
               mapVersion = or_null (version (out_worldInfo out1)),
               textures = sort (fst (texinfo_block buf lumps [])),
               skies = sort (out_skies out1),
               sounds = sort (out_sounds out1),
               models = sort (out_models out1),
               others = sort (out_others out1),
               entityStats = out_entityStats out1\<rparr>"
      unfolding Inr p by simp
    with ver ll n Inr p show ?thesis by (rule_tac that) simp_all
  qed
qed

section \<open>Texture paths\<close>

text \<open>
  The strip step of the normalizer, the pattern \<^verbatim>\<open>/^textures[\\/]+/i\<close>, takes the whole run
  of separators after \<^verbatim>\<open>textures\<close>: run on a path of the program it gives the path back
  only when the normalized name does not begin with a slash.
\<close>

lemma strip_pattern_on_texture_path:
  "''textures/'' @ rx_remove_first re_textures_prefix (texture_path nm) = texture_path nm
     \<longleftrightarrow> \<not> prefix ''/'' (normalized nm)"
proof -
  have 1: "''textures/'' @ rx_remove_first re_textures_prefix (texture_path nm) = texture_path nm
        \<longleftrightarrow> dropWhile is_sep (normalized nm @ ''.wal'') = normalized nm @ ''.wal''"
    by (simp only: restrip_texture_path) (simp only: texture_path_def same_append_eq)
  have 2: "dropWhile is_sep (normalized nm @ ''.wal'') = normalized nm @ ''.wal''
        \<longleftrightarrow> \<not> is_sep (hd (normalized nm @ ''.wal''))"
    by (simp only: dropWhile_eq_self_iff) simp
  show ?thesis
  proof (cases "normalized nm")
    case Nil
    then show ?thesis
      unfolding 1 2 by (simp add: is_sep_def)
  next
    case (Cons c cs)
    with normalized_no_backslash [of nm] have "c \<noteq> CHR 0x5C" by auto
    with Cons show ?thesis
      unfolding 1 2 by (auto simp: is_sep_def)
  qed
qed

lemma texture_path_parts:
  "texture_path nm = ''textures/'' @ normalized nm @ ''.wal''"
  by (simp add: texture_path_def)

lemma texinfo_block_paths:
  assumes "t \<in> set (fst (texinfo_block buf lumps warns))"
  shows "\<exists>nm. nm \<noteq> [] \<and> t = texture_path nm"
  using assms
  by (auto simp: texinfo_block_def Let_def set_fold_texinfo_round split: option.splits if_splits)

lemma restrip_samples:
  "texture_path ''/a'' = ''textures//a.wal''"
  "rx_remove_first re_textures_prefix ''textures//a.wal'' = ''a.wal''"
  "normalized ''e1u1/wall01'' = ''e1u1/wall01''"
  "normalized ''/a'' = ''/a''"
  by code_simp+

text \<open>
  C9. The path of a name is \<^verbatim>\<open>textures/\<close>, the normalized name and \<^verbatim>\<open>.wal\<close>. Taking the
  nine characters \<^verbatim>\<open>textures/\<close> that the normalizer has put in front away from a path
  leaves the normalized name with \<^verbatim>\<open>.wal\<close>, and putting them in front again gives the path
  back; every path ends with \<^verbatim>\<open>.wal\<close>. Each texture of a result is the path of a
  non-empty name, so all this holds of it.
\<close>

theorem texture_path_restrip:
  "texture_path nm = ''textures/'' @ normalized nm @ ''.wal''
   \<and> prefix ''textures/'' (texture_path nm)
   \<and> drop (length ''textures/'') (texture_path nm) = normalized nm @ ''.wal''
   \<and> ''textures/'' @ drop (length ''textures/'') (texture_path nm) = texture_path nm
   \<and> suffix ''.wal'' (texture_path nm)
   \<and> (analyzeBspBuffer buf = Inr r \<longrightarrow>
        (\<forall>t \<in> set (textures r).
           (\<exists>nm'. nm' \<noteq> [] \<and> t = texture_path nm')
           \<and> ''textures/'' @ drop (length ''textures/'') t = t
           \<and> suffix ''.wal'' t))"
proof (intro conjI impI ballI)
  show p: "\<And>nm. texture_path nm = ''textures/'' @ normalized nm @ ''.wal''"
    by (rule texture_path_parts)
  show d: "\<And>nm. ''textures/'' @ drop (length ''textures/'') (texture_path nm) = texture_path nm"
    unfolding texture_path_parts by simp
  show s: "\<And>nm. suffix ''.wal'' (texture_path nm)"
    unfolding texture_path_def suffix_def by (metis append.assoc)
  show "prefix ''textures/'' (texture_path nm)"
    unfolding texture_path_def by (rule prefixI) (rule refl)
  show "drop (length ''textures/'') (texture_path nm) = normalized nm @ ''.wal''"
    unfolding texture_path_parts by simp
  fix t
  assume r: "analyzeBspBuffer buf = Inr r" and t: "t \<in> set (textures r)"
  from r obtain ver lumps out1 w where "readInt32LE buf 4 = Inr ver"
    and "lumps_loop buf 19 8 [] [] =
       Inr (if length buf < 160 then [LumpTableTruncated] else [], lumps)"
    and "length lumps = min 19 (nat ((int (length buf) - 8) div 8))"
    and "entities_block buf lumps empty_out [] = Inr (out1, w)"
    and res: "r = \<lparr>errors =
                 (if buf_toString buf 0 4 \<noteq> Q2_MAGIC
                  then [BadSignature Q2_MAGIC (buf_toString buf 0 4)] else [])
                 @ (if length buf < 160 then [LumpTableTruncated] else []),
               warnings =
                 (if ver \<noteq> Q2_VERSION then [VersionMismatch ver Q2_VERSION] else [])
                 @ (if lump_guard buf (lumps_at lumps LUMP_ENTITIES) then []
                    else [EntitiesLumpMissing])
                 @ (if lump_guard buf (lumps_at lumps LUMP_TEXINFO) then []
                    else [TexinfoLumpMissing]),
               mapName = or_null (name (out_worldInfo out1)),
               mapVersion = or_null (version (out_worldInfo out1)),
               textures = sort (fst (texinfo_block buf lumps [])),
               skies = sort (out_skies out1),
               sounds = sort (out_sounds out1),
               models = sort (out_models out1),
               others = sort (out_others out1),
               entityStats = out_entityStats out1\<rparr>"
    by (rule analyze_result)
  from res have "textures r = sort (fst (texinfo_block buf lumps []))" by simp
  with t have "t \<in> set (fst (texinfo_block buf lumps []))" by simp
  then obtain nm' where nm': "nm' \<noteq> []" "t = texture_path nm'"
    using texinfo_block_paths by blast
  then show "\<exists>nm'. nm' \<noteq> [] \<and> t = texture_path nm'" by blast
  from nm' d show "''textures/'' @ drop (length ''textures/'') t = t" by simp
  from nm' s show "suffix ''.wal'' t" by simp
qed

theorem texture_path_restrip_witness:
  "texture_path ''e1u1/wall01'' = ''textures/e1u1/wall01.wal''
   \<and> drop (length ''textures/'') (texture_path ''e1u1/wall01'') = ''e1u1/wall01.wal''
   \<and> (\<exists>r. analyzeBspBuffer mixed_buf = Inr r
        \<and> textures r = [''textures/e1u1/floor.wal'', ''textures/wall.wal'']
        \<and> (\<forall>t \<in> set (textures r).
              ''textures/'' @ drop (length ''textures/'') t = t \<and> suffix ''.wal'' t))"
  using texture_path_restrip [of "''e1u1/wall01''" mixed_buf]
  by (simp add: restrip_samples mixed_buf_analysis)

text \<open>
  C8. In every result the five resource lists are sorted in ascending order of their
  code units and hold no string twice. The errors are, in this order, the signature
  error and the truncation error, each present or not; the warnings are, in this order,
  the version warning, the ENTITIES warning and the TEXINFO warning, each present or not:
  the order of emission, with nothing removed or moved.
\<close>

theorem resource_lists_sorted_distinct:
  assumes "analyzeBspBuffer buf = Inr r"
  shows "sorted (textures r) \<and> distinct (textures r)
       \<and> sorted (skies r) \<and> distinct (skies r)
       \<and> sorted (sounds r) \<and> distinct (sounds r)
       \<and> sorted (models r) \<and> distinct (models r)
       \<and> sorted (others r) \<and> distinct (others r)
       \<and> (\<exists>ver lumps.
            readInt32LE buf 4 = Inr ver
            \<and> lumps_loop buf 19 8 [] [] =
                Inr (if length buf < 160 then [LumpTableTruncated] else [], lumps)
            \<and> errors r =
                (if buf_toString buf 0 4 \<noteq> ''IBSP''
                 then [BadSignature ''IBSP'' (buf_toString buf 0 4)] else [])
                @ (if length buf < 160 then [LumpTableTruncated] else [])
            \<and> warnings r =
                (if ver \<noteq> 38 then [VersionMismatch ver 38] else [])
                @ (if lump_guard buf (lumps_at lumps LUMP_ENTITIES) then []
                   else [EntitiesLumpMissing])
                @ (if lump_guard buf (lumps_at lumps LUMP_TEXINFO) then []
                   else [TexinfoLumpMissing]))"
proof -
  from assms obtain ver lumps out1 w where ver: "readInt32LE buf 4 = Inr ver"
    and ll: "lumps_loop buf 19 8 [] [] =
       Inr (if length buf < 160 then [LumpTableTruncated] else [], lumps)"
    and "length lumps = min 19 (nat ((int (length buf) - 8) div 8))"
    and eb: "entities_block buf lumps empty_out [] = Inr (out1, w)"
    and res: "r = \<lparr>errors =
                 (if buf_toString buf 0 4 \<noteq> Q2_MAGIC
                  then [BadSignature Q2_MAGIC (buf_toString buf 0 4)] else [])
                 @ (if length buf < 160 then [LumpTableTruncated] else []),
               warnings =
                 (if ver \<noteq> Q2_VERSION then [VersionMismatch ver Q2_VERSION] else [])
                 @ (if lump_guard buf (lumps_at lumps LUMP_ENTITIES) then []
                    else [EntitiesLumpMissing])
                 @ (if lump_guard buf (lumps_at lumps LUMP_TEXINFO) then []
                    else [TexinfoLumpMissing]),
               mapName = or_null (name (out_worldInfo out1)),
               mapVersion = or_null (version (out_worldInfo out1)),
               textures = sort (fst (texinfo_block buf lumps [])),
               skies = sort (out_skies out1),
               sounds = sort (out_sounds out1),
               models = sort (out_models out1),
               others = sort (out_others out1),
               entityStats = out_entityStats out1\<rparr>"
    by (rule analyze_result)
  from res have t: "textures r = sort (fst (texinfo_block buf lumps []))"
    and s: "skies r = sort (out_skies out1)" "sounds r = sort (out_sounds out1)"
      "models r = sort (out_models out1)" "others r = sort (out_others out1)"
    and e: "errors r =
              (if buf_toString buf 0 4 \<noteq> ''IBSP''
               then [BadSignature ''IBSP'' (buf_toString buf 0 4)] else [])
              @ (if length buf < 160 then [LumpTableTruncated] else [])"
    and w: "warnings r =
              (if ver \<noteq> 38 then [VersionMismatch ver 38] else [])
              @ (if lump_guard buf (lumps_at lumps LUMP_ENTITIES) then [] else [EntitiesLumpMissing])
              @ (if lump_guard buf (lumps_at lumps LUMP_TEXINFO) then [] else [TexinfoLumpMissing])"
    by (simp_all add: Q2_MAGIC_def Q2_VERSION_def)
  have d: "distinct (out_skies out1)" "distinct (out_sounds out1)" "distinct (out_models out1)"
    "distinct (out_others out1)"
    using buckets_entities_block [OF eb] by (simp_all add: buckets_distinct_def)
  have "sorted (textures r) \<and> distinct (textures r)"
    unfolding t by (simp add: distinct_texinfo_block)
  moreover have "sorted (skies r) \<and> distinct (skies r)" unfolding s by (simp add: d)
  moreover have "sorted (sounds r) \<and> distinct (sounds r)" unfolding s by (simp add: d)
  moreover have "sorted (models r) \<and> distinct (models r)" unfolding s by (simp add: d)
  moreover have "sorted (others r) \<and> distinct (others r)" unfolding s by (simp add: d)
  ultimately show ?thesis using ver ll e w by blast
qed

theorem resource_lists_sorted_distinct_witness:
  "\<exists>r. analyzeBspBuffer mixed_buf = Inr r
      \<and> textures r = [''textures/e1u1/floor.wal'', ''textures/wall.wal'']
      \<and> sounds r = [''world/a.wav'', ''world/b.wav'']
      \<and> sorted (textures r) \<and> distinct (textures r)
      \<and> sorted (sounds r) \<and> distinct (sounds r)
      \<and> errors r = [BadSignature ''IBSP'' ''XXXX'']
      \<and> warnings r = [VersionMismatch 37 38]"
  using resource_lists_sorted_distinct [OF mixed_buf_analysis]
  by (simp add: mixed_buf_analysis)

section \<open>A wrong signature\<close>





section \<open>Lumps at a negative offset\<close>

lemma lump_guard_iff:
  "lump_guard buf (Some l) \<longleftrightarrow>
     0 < lump_length l \<and> lump_offset l + lump_length l \<le> int (length buf)"
  by (simp add: lump_guard_def)

lemma rejected_lumps_are_absent:
  "\<not> lump_guard buf (lumps_at lumps LUMP_ENTITIES) \<Longrightarrow>
     entities_block buf lumps out warns = Inr (out, warns @ [EntitiesLumpMissing])"
  "\<not> lump_guard buf (lumps_at lumps LUMP_TEXINFO) \<Longrightarrow>
     texinfo_block buf lumps warns = ([], warns @ [TexinfoLumpMissing])"
  by (simp_all add: entities_block_def texinfo_block_def Let_def)

text \<open>
  C6 at the buffer \<open>neg_buf\<close>. Its ENTITIES lump has the offset \<open>-1\<close> and the length
  171, its TEXINFO lump the offset \<open>-40\<close> and the length 76; the buffer has 170 bytes.
  Both lumps pass the guard, which looks at the length and at the sum of offset and length
  only: no warning is given, the entity text is read from the start of the buffer and
  gives a sky, and the bytes of the header are read as a texture name.
\<close>

theorem negative_offset_lumps_are_read:
  "length neg_buf = 170
   \<and> readInt32LE neg_buf 8 = Inr (- 1) \<and> readInt32LE neg_buf 12 = Inr 171
   \<and> readInt32LE neg_buf 48 = Inr (- 40) \<and> readInt32LE neg_buf 52 = Inr 76
   \<and> lump_guard neg_buf (Some \<lparr>lump_offset = - 1, lump_length = 171\<rparr>)
   \<and> lump_guard neg_buf (Some \<lparr>lump_offset = - 40, lump_length = 76\<rparr>)
   \<and> (\<exists>r. analyzeBspBuffer neg_buf = Inr r
         \<and> warnings r = [] \<and> errors r = []
         \<and> skies r = [''env/u1*'']
         \<and> textures r = [''textures/IBSP&.wal''])"
  by (simp add: neg_buf_reads neg_buf_analysis lump_guard_def)

end
